theory Spec2Isabelle
  imports Main "HOL-Library.Word"
begin

unbundle bit_operations_syntax

section \<open>The Pathway driver of pymedoc: data model\<close>

text \<open>
  The driver (\<^verbatim>\<open>pymedoc/devices.py\<close>, class \<^verbatim>\<open>Pathway\<close>) is Python 2 code. Its integers
  are unbounded (\<open>int\<close>), the bytes it sends are \<^verbatim>\<open>numpy.uint8\<close> values and the bytes it
  receives are the characters of a Python 2 \<^verbatim>\<open>str\<close>; both are \<open>8 word\<close> here. Exceptions
  are values of \<open>py_error\<close>, and a function that can raise returns \<open>py_error + 'a\<close>.
\<close>

type_synonym byte = "8 word"

datatype py_error =
  IndexError | KeyError | ValueError | TypeError | NotImplementedError | SocketError
  | RuntimeError

text \<open>The values stored in a response dictionary: integers and strings.\<close>

datatype pyval = PyInt int | PyStr string

text \<open>A Python dictionary with string keys, as an association list with distinct keys.\<close>

type_synonym response_dict = "(string \<times> pyval) list"

definition setitem :: "response_dict \<Rightarrow> string \<Rightarrow> pyval \<Rightarrow> response_dict" where
  "setitem d k v = (if k \<in> fst ` set d then map (\<lambda>(k', v'). if k' = k then (k, v) else (k', v')) d
                    else d @ [(k, v)])"

definition getitem :: "('k \<times> 'v) list \<Rightarrow> 'k \<Rightarrow> py_error + 'v" where
  "getitem d k = (case map_of d k of None \<Rightarrow> Inl KeyError | Some v \<Rightarrow> Inr v)"

text \<open>The code tables set up by \<^verbatim>\<open>__init__\<close>.\<close>

definition test_states :: "(int \<times> string) list" where
  "test_states = [(0, ''IDLE''), (1, ''RUNNING''), (2, ''PAUSED''), (3, ''READY'')]"

definition state_codes :: "(int \<times> string) list" where
  "state_codes = [(0, ''IDLE''), (1, ''READY''), (2, ''TEST'')]"

definition command_codes :: "(int \<times> string) list" where
  "command_codes = [(0, ''STATUS''), (1, ''TEST_PROGRAM''), (2, ''START''), (3, ''PAUSE''),
     (4, ''TRIGGER''), (5, ''STOP''), (6, ''ABORT''), (7, ''YES''), (8, ''NO'')]"

definition response_codes :: "(int \<times> string) list" where
  "response_codes = [(0, ''RESULT_OK''), (1, ''RESULT_ILLEGAL_ARG''),
     (2, ''RESULT_ILLEGAL_STATE''), (3, ''RESULT_ILLEGAL_TEST_STATE''),
     (4096, ''RESULT_DEVICE_COMM_ERROR''), (8192, ''RESULT_SAFETY_WARNING''),
     (16384, ''RESULT_SAFETY_ERROR'')]"

text \<open>
  \<^verbatim>\<open>segmentation_points\<close> maps a field name to a pair of offsets (a slice) or to a single
  offset.
\<close>

datatype segpoint = Span nat nat | At nat

definition segmentation_points :: "(string \<times> segpoint) list" where
  "segmentation_points = [(''LENGTH_OFFSET'', Span 0 4), (''TIMESTAMP_OFFSET'', Span 4 8),
     (''COMMAND_OFFSET'', At 8), (''SYSTEM_STATE_OFFSET'', At 9), (''TEST_STATE_OFFSET'', At 10),
     (''RESULT_OFFSET'', Span 11 13), (''TEST_TIME_OFFSET'', Span 13 17),
     (''ERROR_MESSAGE_OFFSET'', At 17)]"

section \<open>Python primitives used by the codec\<close>

text \<open>Decimal rendering of an integer: \<^verbatim>\<open>str(x)\<close> and the digits of \<^verbatim>\<open>%d\<close>.\<close>

fun digits :: "nat \<Rightarrow> string" where
  "digits n = (if n < 10 then [''0123456789'' ! n]
               else digits (n div 10) @ [''0123456789'' ! (n mod 10)])"

declare digits.simps [simp del]

definition str :: "int \<Rightarrow> string" where
  "str x = (if x < 0 then CHR ''-'' # digits (nat (- x)) else digits (nat x))"

text \<open>
  \<^verbatim>\<open>int(s, 2)\<close> on a string of binary digits. The driver only passes it non-empty strings
  over \<^verbatim>\<open>0\<close> and \<^verbatim>\<open>1\<close>, where Python does not raise.
\<close>

definition int_base2 :: "string \<Rightarrow> int" where
  "int_base2 s = foldl (\<lambda>acc c. 2 * acc + (if c = CHR ''1'' then 1 else 0)) 0 s"

text \<open>The slice \<^verbatim>\<open>xs[a:b]\<close> for offsets \<open>0 \<le> a\<close>, \<open>0 \<le> b\<close>.\<close>

definition slice :: "'a list \<Rightarrow> nat \<Rightarrow> nat \<Rightarrow> 'a list" where
  "slice xs a b = drop a (take b xs)"

text \<open>
  \<^verbatim>\<open>bin32 = lambda x : ''.join(reversed([str((x >> i) & 1) for i in range(32)]))\<close>,
  and \<^verbatim>\<open>bin8\<close> likewise with 8 bits.
\<close>

definition bin32 :: "int \<Rightarrow> string" where
  "bin32 x = concat (rev (map (\<lambda>i. str (drop_bit i x AND 1)) [0..<32]))"

definition bin8 :: "int \<Rightarrow> string" where
  "bin8 x = concat (rev (map (\<lambda>i. str (drop_bit i x AND 1)) [0..<8]))"

text \<open>
  The loop that \<^verbatim>\<open>_format_command\<close> runs three times, on the time, the protocol number
  and the size:
  \<^verbatim>\<open>for i in range(1,5): l.append(int(s[(i-1)*8:i*8],2))\<close> followed by \<^verbatim>\<open>l.reverse()\<close>.
\<close>

definition bytelist :: "string \<Rightarrow> int list" where
  "bytelist s = rev (map (\<lambda>i. int_base2 (slice s ((i - 1) * 8) (i * 8))) [1..<5])"

section \<open>Encoding a command\<close>

text \<open>
  \<^verbatim>\<open>_format_command(command, protocol)\<close>; \<open>now\<close> is the value of \<^verbatim>\<open>int(time.time())\<close>.
  The protocol payload is added when \<^verbatim>\<open>command==1 and protocol\<close>: the protocol number
  must be present and non-zero. \<^verbatim>\<open>astype(np.uint8)\<close> keeps the low 8 bits of every
  element.
\<close>

definition truthy :: "int option \<Rightarrow> bool" where
  "truthy p = (case p of None \<Rightarrow> False | Some n \<Rightarrow> n \<noteq> 0)"

definition format_command :: "int \<Rightarrow> int \<Rightarrow> int option \<Rightarrow> byte list" where
  "format_command now command protocol =
     (let curtime = bin32 now;
          timelist = bytelist curtime;
          cmd = [command];
          protocollist = (if command = 1 \<and> truthy protocol then bytelist (bin32 (the protocol))
                          else []);
          MESSAGE = timelist @ cmd @ protocollist;
          size = bin32 (int (length MESSAGE));
          sizelist = bytelist size;
          MESSAGE = sizelist @ MESSAGE
      in map word_of_int MESSAGE)"

section \<open>Decoding a response\<close>

text \<open>
  The body of \<^verbatim>\<open>_decode\<close> for a slice \<open>(a, b)\<close>: the bytes \<^verbatim>\<open>data_int[a:b]\<close> are rendered
  with \<^verbatim>\<open>bin8\<close>, indexed from \<open>0\<close> to \<open>b - a - 1\<close> (an \<^verbatim>\<open>IndexError\<close> when the slice
  is shorter), reversed, joined and read as one binary number.
\<close>

definition decode_span :: "int list \<Rightarrow> nat \<Rightarrow> nat \<Rightarrow> py_error + int" where
  "decode_span data_int a b =
     (let dat_int = slice data_int a b
      in if length dat_int < b - a then Inl IndexError
         else let dat_bin = map (\<lambda>i. bin8 (dat_int ! i)) [0..<b - a];
                  dat_bin = concat (rev dat_bin)
              in if dat_bin = [] then Inl ValueError else Inr (int_base2 dat_bin))"

text \<open>
  \<^verbatim>\<open>_decode(data_int, whichtime)\<close> looks the slice up in \<^verbatim>\<open>segmentation_points\<close>;
  subscripting a single offset is a \<^verbatim>\<open>TypeError\<close>.
\<close>

definition decode :: "int list \<Rightarrow> string \<Rightarrow> py_error + int" where
  "decode data_int whichtime =
     (case getitem segmentation_points whichtime of
        Inl e \<Rightarrow> Inl e
      | Inr (At _) \<Rightarrow> Inl TypeError
      | Inr (Span a b) \<Rightarrow> decode_span data_int a b)"

text \<open>\<^verbatim>\<open>data_int[self.segmentation_points[key]]\<close> for a single offset.\<close>

definition byte_at :: "int list \<Rightarrow> string \<Rightarrow> py_error + int" where
  "byte_at data_int key =
     (case getitem segmentation_points key of
        Inl e \<Rightarrow> Inl e
      | Inr (Span _ _) \<Rightarrow> Inl TypeError
      | Inr (At i) \<Rightarrow> if i < length data_int then Inr (data_int ! i) else Inl IndexError)"

text \<open>
  The conversions of the format string \<^verbatim>\<open>'%.2d:%.2d:%.2d.%3d'\<close>: \<^verbatim>\<open>%.2d\<close> is a
  precision (at least two digits, padded with zeros), \<^verbatim>\<open>%3d\<close> is a width (at least three
  characters, padded with spaces on the left).
\<close>

definition fmt_prec2 :: "int \<Rightarrow> string" where
  "fmt_prec2 x = (let ds = digits (nat \<bar>x\<bar>)
                  in (if x < 0 then ''-'' else '''') @ replicate (2 - length ds) CHR ''0'' @ ds)"

definition fmt_width3 :: "int \<Rightarrow> string" where
  "fmt_width3 x = (let s = str x in replicate (3 - length s) CHR '' '' @ s)"

definition decode_test_time :: "int list \<Rightarrow> py_error + string" where
  "decode_test_time data_int =
     (case decode data_int ''TEST_TIME_OFFSET'' of
        Inl e \<Rightarrow> Inl e
      | Inr test_time \<Rightarrow>
          let hours = test_time div 3600000;
              mins = (test_time - hours * 3600000) div 60000;
              secs = (test_time - hours * 3600000 - mins * 60000) div 1000;
              msecs = test_time - hours * 3600000 - mins * 60000 - secs * 1000
          in Inr (fmt_prec2 hours @ '':'' @ fmt_prec2 mins @ '':'' @ fmt_prec2 secs @ ''.''
                  @ fmt_width3 msecs))"

text \<open>
  \<^verbatim>\<open>_format_response(data, nbytes)\<close>. The body of its \<^verbatim>\<open>try\<close> block stores one field
  after the other in \<^verbatim>\<open>response_dict\<close>; the first exception ends it. \<open>attempt d r k\<close>
  is one such step: when \<open>r\<close> raised, the block ends with the dictionary \<open>d\<close> built so
  far, otherwise the value goes on to \<open>k\<close>. The rendering \<^verbatim>\<open>time.ctime\<close> of the platform
  is the parameter \<open>ctime\<close>. The last test reads \<^verbatim>\<open>response_dict['response_length']\<close>,
  which is the value \<open>len\<close> stored first; \<^verbatim>\<open>data[17]\<close> is a string of one character.
\<close>

definition attempt ::
  "response_dict \<Rightarrow> py_error + 'a \<Rightarrow> ('a \<Rightarrow> response_dict \<times> py_error option)
     \<Rightarrow> response_dict \<times> py_error option" where
  "attempt d r k = (case r of Inl e \<Rightarrow> (d, Some e) | Inr v \<Rightarrow> k v)"

definition format_response_try ::
  "(int \<Rightarrow> string) \<Rightarrow> byte list \<Rightarrow> response_dict \<times> py_error option" where
  "format_response_try ctime data =
     (let data_int = map uint data;
          d0 = []
      in attempt d0 (decode data_int ''LENGTH_OFFSET'') (\<lambda>len.
         let d1 = setitem d0 ''response_length'' (PyInt len)
         in attempt d1 (decode data_int ''TIMESTAMP_OFFSET'') (\<lambda>ts.
         let d2 = setitem d1 ''time_stamp'' (PyStr (ctime ts))
         in attempt d2 (byte_at data_int ''COMMAND_OFFSET'') (\<lambda>c.
            attempt d2 (getitem command_codes c) (\<lambda>command_id.
         let d3 = setitem d2 ''command_id'' (PyStr command_id)
         in attempt d3 (byte_at data_int ''SYSTEM_STATE_OFFSET'') (\<lambda>s.
            attempt d3 (getitem state_codes s) (\<lambda>pathway_state.
         let d4 = setitem d3 ''pathway_state'' (PyStr pathway_state)
         in attempt d4 (byte_at data_int ''TEST_STATE_OFFSET'') (\<lambda>t.
            attempt d4 (getitem test_states t) (\<lambda>test_state.
         let d5 = setitem d4 ''test_state'' (PyStr test_state)
         in attempt d5 (decode data_int ''RESULT_OFFSET'') (\<lambda>r.
            attempt d5 (getitem response_codes r) (\<lambda>response.
         let d6 = setitem d5 ''response'' (PyStr response)
         in attempt d6 (decode_test_time data_int) (\<lambda>test_time.
         let d7 = setitem d6 ''test_time_stamp'' (PyStr test_time)
         in if len > 13
            then attempt d7 (if 17 < length data then Inr (data ! 17) else Inl IndexError) (\<lambda>b.
                   (setitem d7 ''error_message'' (PyStr [char_of (uint b)]), None))
            else (d7, None)))))))))))))"

text \<open>
  The \<^verbatim>\<open>except Exception\<close> clause only prints; the function returns \<^verbatim>\<open>response_dict\<close>
  as it stands on either path.
\<close>

definition format_response :: "(int \<Rightarrow> string) \<Rightarrow> byte list \<Rightarrow> nat \<Rightarrow> response_dict" where
  "format_response ctime data nbytes = fst (format_response_try ctime data)"

section \<open>The session: sockets, \<^verbatim>\<open>call\<close> and \<^verbatim>\<open>poll_for_change\<close>\<close>

text \<open>
  The device and the network are a script: one entry for each connection that will
  succeed, giving the value of \<^verbatim>\<open>int(time.time())\<close> when the command is encoded on it and
  the bytes the device has ready when \<^verbatim>\<open>recv\<close> is called. Once the script is used up,
  \<^verbatim>\<open>connect\<close> raises a socket error. Every socket operation and every \<^verbatim>\<open>time.sleep\<close>
  is appended to a trace. Printing is not modelled.
\<close>

record exchange =
  clock :: int
  reply :: "byte list"

datatype sleep_site = After_send | Poll_interval | Server_lag

datatype io_event = Connect | Connect_failed | Send "byte list" | Recv "byte list"
  | Sleep sleep_site

record world =
  script :: "exchange list"
  trace :: "io_event list"

definition emit :: "io_event list \<Rightarrow> world \<Rightarrow> world" where
  "emit evs w = w\<lparr>trace := trace w @ evs\<rparr>"

record pathway =
  ip :: string
  port_number :: int
  BUFFER_SIZE :: nat
  verbose :: bool

text \<open>A command is given by name or by number.\<close>

datatype command = Name string | Code int

text \<open>
  \<^verbatim>\<open>self.command_codes.keys()[self.command_codes.values().index(command)]\<close>: the number
  of the first entry with that name, a \<^verbatim>\<open>ValueError\<close> when there is none.
\<close>

definition command_number :: "command \<Rightarrow> py_error + int" where
  "command_number command =
     (case command of
        Code c \<Rightarrow> Inr c
      | Name n \<Rightarrow> (case find (\<lambda>(k, v). v = n) command_codes of
                    None \<Rightarrow> Inl ValueError
                  | Some (k, v) \<Rightarrow> Inr k))"

text \<open>
  \<^verbatim>\<open>call(command, protocol, reuse_socket)\<close>. The connection is created first; the
  command name is resolved and the protocol number checked after that. An empty
  response dictionary makes \<^verbatim>\<open>call\<close> call itself again with the same command, from
  inside the running call (\<^verbatim>\<open>return self.call(...)\<close>), so every re-issue adds a frame to
  the interpreter's stack. \<open>depth\<close> is the number of such nested re-issues that still
  fit under the interpreter's recursion limit when \<^verbatim>\<open>call\<close> is entered; the re-issue that
  does not fit raises \<^verbatim>\<open>RuntimeError\<close> (maximum recursion depth exceeded). What the
  innermost frames do on the way to that error is not looked into: the error is placed at
  the re-issue itself.
\<close>

function call ::
  "(int \<Rightarrow> string) \<Rightarrow> pathway \<Rightarrow> nat \<Rightarrow> command \<Rightarrow> int option \<Rightarrow> bool \<Rightarrow> world
     \<Rightarrow> (py_error + response_dict) \<times> world" where
  "call ctime self depth command protocol reuse_socket w =
     (if reuse_socket then (Inl NotImplementedError, w)
      else case script w of
        [] \<Rightarrow> (Inl SocketError, emit [Connect_failed] w)
      | x # rest \<Rightarrow>
          let w1 = emit [Connect] (w\<lparr>script := rest\<rparr>)
          in case command_number command of
               Inl e \<Rightarrow> (Inl e, w1)
             | Inr c \<Rightarrow>
                 if c = 1 \<and> protocol = None then (Inl ValueError, w1)
                 else let MESSAGE = format_command (clock x) c protocol;
                          nbytes = length MESSAGE;
                          w2 = emit [Send MESSAGE, Sleep After_send] w1;
                          data = take (BUFFER_SIZE self) (reply x);
                          w3 = emit [Recv data] w2;
                          response = format_response ctime data nbytes
                      in if response = []
                         then (case depth of
                                 0 \<Rightarrow> (Inl RuntimeError, w3)
                               | Suc d \<Rightarrow> call ctime self d (Code c) protocol False w3)
                         else (Inr response, w3))"
  by pat_completeness auto
termination
  by (relation "measure (\<lambda>(ctime, self, depth, command, protocol, reuse_socket, w).
        length (script w))")
     (auto simp: emit_def)

declare call.simps [simp del]

text \<open>A call that returns a response has used up at least one entry of the script.\<close>

lemma call_script_shorter:
  "call ctime self depth command protocol reuse_socket w = (Inr r, w') \<Longrightarrow>
     length (script w') < length (script w)"
proof (induction ctime self depth command protocol reuse_socket w rule: call.induct)
  case (1 ctime self depth command protocol reuse_socket w)
  show ?case
  proof (cases "script w")
    case Nil
    with "1.prems" show ?thesis
      by (subst (asm) call.simps) (simp split: if_splits)
  next
    case (Cons x rest)
    show ?thesis
    proof (cases "command_number command")
      case (Inl e)
      with Cons "1.prems" show ?thesis
        by (subst (asm) call.simps) (simp split: if_splits)
    next
      case (Inr c)
      define w3 where "w3 = emit [Recv (take (BUFFER_SIZE self) (reply x))]
        (emit [Send (format_command (clock x) c protocol), Sleep After_send]
          (emit [Connect] (w\<lparr>script := rest\<rparr>)))"
      have len: "length (script w3) < length (script w)"
        by (simp add: w3_def emit_def Cons)
      from "1.prems" have nr: "\<not> reuse_socket"
        by (subst (asm) call.simps) (simp split: if_splits)
      from "1.prems" have np: "\<not> (c = 1 \<and> protocol = None)"
        by (subst (asm) call.simps) (simp add: Cons Inr Let_def split: if_splits)
      show ?thesis
      proof (cases "format_response ctime (take (BUFFER_SIZE self) (reply x))
                      (length (format_command (clock x) c protocol)) = []")
        case True
        show ?thesis
        proof (cases depth)
          case 0
          with "1.prems" nr np True show ?thesis
            by (subst (asm) call.simps) (simp add: Cons Inr Let_def)
        next
          case (Suc d)
          with "1.prems" nr np True
          have "call ctime self d (Code c) protocol False w3 = (Inr r, w')"
            by (subst (asm) call.simps) (simp add: Cons Inr Let_def w3_def)
          with "1.IH" [OF nr Cons refl Inr np refl refl refl refl refl refl True Suc,
              folded w3_def]
          have "length (script w') < length (script w3)"
            by blast
          with len show ?thesis by simp
        qed
      next
        case False
        with "1.prems" nr np have "w' = w3"
          by (subst (asm) call.simps) (simp add: Cons Inr Let_def w3_def)
        with len show ?thesis by simp
      qed
    qed
  qed
qed

text \<open>
  \<^verbatim>\<open>poll_for_change(to_watch, desired_value, poll_interval, poll_max, verbose, server_lag)\<close>.
  The two durations only set how long the sleeps last; the trace records which sleep it
  was. \<open>poll_loop\<close> is the \<^verbatim>\<open>while\<close> loop with its variables \<^verbatim>\<open>val\<close> and \<^verbatim>\<open>count\<close>,
  which start as \<^verbatim>\<open>''\<close> and \<^verbatim>\<open>1\<close>. Every round calls \<^verbatim>\<open>call\<close> from the same frame, so
  each of these calls has the same \<open>depth\<close> left.
\<close>

function poll_loop ::
  "(int \<Rightarrow> string) \<Rightarrow> pathway \<Rightarrow> nat \<Rightarrow> string \<Rightarrow> pyval \<Rightarrow> int \<Rightarrow> pyval \<Rightarrow> int \<Rightarrow> world
     \<Rightarrow> (py_error + bool) \<times> world" where
  "poll_loop ctime self depth to_watch desired_value poll_max val count w =
     (if val \<noteq> desired_value
      then case call ctime self depth (Name ''STATUS'') None False w of
             (Inl e, w1) \<Rightarrow> (Inl e, w1)
           | (Inr resp, w1) \<Rightarrow>
               (case (if resp \<noteq> [] then getitem resp to_watch
                      else Inr (PyStr ''RESPONSE_FORMAT_ERROR'')) of
                  Inl e \<Rightarrow> (Inl e, w1)
                | Inr val' \<Rightarrow>
                    let w2 = emit [Sleep Poll_interval] w1;
                        count' = count + 1
                    in if poll_max > 0 \<and> count' > poll_max then (Inr False, w2)
                       else poll_loop ctime self depth to_watch desired_value poll_max val' count' w2)
      else (Inr True, emit [Sleep Server_lag] w))"
  by pat_completeness auto
termination
  by (relation "measure (\<lambda>(ctime, self, depth, to_watch, desired_value, poll_max, val, count, w).
        length (script w))")
     (auto simp: emit_def dest: call_script_shorter [OF sym])

declare poll_loop.simps [simp del]

definition poll_for_change ::
  "(int \<Rightarrow> string) \<Rightarrow> pathway \<Rightarrow> nat \<Rightarrow> string \<Rightarrow> pyval \<Rightarrow> int \<Rightarrow> world
     \<Rightarrow> (py_error + bool) \<times> world" where
  "poll_for_change ctime self depth to_watch desired_value poll_max w =
     poll_loop ctime self depth to_watch desired_value poll_max (PyStr '''') 1 w"

section \<open>Notions used to state and prove the properties\<close>

text \<open>
  \<open>bits x a n\<close> is the string of the \<open>n\<close> binary digits of \<open>x\<close> from bit \<open>a\<close> upwards,
  most significant first: the pieces that \<^verbatim>\<open>bin32\<close> and \<^verbatim>\<open>bin8\<close> are made of.
\<close>

definition bits :: "int \<Rightarrow> nat \<Rightarrow> nat \<Rightarrow> string" where
  "bits x a n = concat (rev (map (\<lambda>i. str (drop_bit i x AND 1)) [a..<a + n]))"

text \<open>The four bytes of a 32-bit value, least significant first.\<close>

definition le32 :: "int \<Rightarrow> int list" where
  "le32 x = [take_bit 8 x, take_bit 8 (drop_bit 8 x), take_bit 8 (drop_bit 16 x),
             take_bit 8 (drop_bit 24 x)]"

text \<open>
  What the \<^verbatim>\<open>try\<close> block of \<^verbatim>\<open>_format_response\<close> is meant to do, said directly: the fields
  of a response in the order in which they are decoded, each with the outcome of decoding
  it alone (\<open>field_results\<close>), and the entries that precede the first failure
  (\<open>decoded_so_far\<close>). The entry of \<^verbatim>\<open>error_message\<close> exists only when the response
  length exceeds 13.
\<close>

definition lookup_code :: "(int \<times> string) list \<Rightarrow> py_error + int \<Rightarrow> py_error + pyval" where
  "lookup_code table r =
     (case r of Inl e \<Rightarrow> Inl e
      | Inr c \<Rightarrow> (case getitem table c of Inl e \<Rightarrow> Inl e | Inr name \<Rightarrow> Inr (PyStr name)))"

definition field_results :: "(int \<Rightarrow> string) \<Rightarrow> byte list \<Rightarrow> (string \<times> (py_error + pyval)) list" where
  "field_results ctime data =
     (let data_int = map uint data
      in [(''response_length'', map_sum id PyInt (decode data_int ''LENGTH_OFFSET'')),
          (''time_stamp'', map_sum id (\<lambda>ts. PyStr (ctime ts)) (decode data_int ''TIMESTAMP_OFFSET'')),
          (''command_id'', lookup_code command_codes (byte_at data_int ''COMMAND_OFFSET'')),
          (''pathway_state'', lookup_code state_codes (byte_at data_int ''SYSTEM_STATE_OFFSET'')),
          (''test_state'', lookup_code test_states (byte_at data_int ''TEST_STATE_OFFSET'')),
          (''response'', lookup_code response_codes (decode data_int ''RESULT_OFFSET'')),
          (''test_time_stamp'', map_sum id PyStr (decode_test_time data_int))]
         @ (case decode data_int ''LENGTH_OFFSET'' of
              Inl e \<Rightarrow> []
            | Inr len \<Rightarrow>
                if len > 13
                then [(''error_message'',
                       if 17 < length data then Inr (PyStr [char_of (uint (data ! 17))])
                       else Inl IndexError)]
                else []))"

fun decoded_so_far :: "('k \<times> (py_error + 'v)) list \<Rightarrow> ('k \<times> 'v) list" where
  "decoded_so_far [] = []"
| "decoded_so_far ((k, Inl e) # fs) = []"
| "decoded_so_far ((k, Inr v) # fs) = (k, v) # decoded_so_far fs"

text \<open>
  The conditions under which a response is not a complete, well-formed one. A code is
  \<open>unmapped\<close> when the byte (or the two result bytes) could be read and the table has no
  entry for it, and \<open>mapped\<close> when it could be read and the table has one.
  \<open>needed_length\<close> is the number of bytes the \<^verbatim>\<open>try\<close> block reads: 17, or 18 when
  the response length exceeds 13 and \<^verbatim>\<open>data[17]\<close> is read as well.
\<close>

definition unmapped :: "(int \<times> string) list \<Rightarrow> py_error + int \<Rightarrow> bool" where
  "unmapped table r = (case r of Inl e \<Rightarrow> False | Inr c \<Rightarrow> map_of table c = None)"

definition mapped :: "(int \<times> string) list \<Rightarrow> py_error + int \<Rightarrow> bool" where
  "mapped table r = (case r of Inl e \<Rightarrow> False | Inr c \<Rightarrow> map_of table c \<noteq> None)"

definition needed_length :: "byte list \<Rightarrow> nat" where
  "needed_length data =
     (case decode (map uint data) ''LENGTH_OFFSET'' of
        Inl e \<Rightarrow> 17
      | Inr len \<Rightarrow> if len > 13 then 18 else 17)"

definition malformed :: "byte list \<Rightarrow> bool" where
  "malformed data =
     (let data_int = map uint data
      in length data < needed_length data
         \<or> unmapped command_codes (byte_at data_int ''COMMAND_OFFSET'')
         \<or> unmapped state_codes (byte_at data_int ''SYSTEM_STATE_OFFSET'')
         \<or> unmapped test_states (byte_at data_int ''TEST_STATE_OFFSET'')
         \<or> unmapped response_codes (decode data_int ''RESULT_OFFSET''))"

definition codes_mapped :: "byte list \<Rightarrow> bool" where
  "codes_mapped data =
     (let data_int = map uint data
      in mapped command_codes (byte_at data_int ''COMMAND_OFFSET'')
         \<and> mapped state_codes (byte_at data_int ''SYSTEM_STATE_OFFSET'')
         \<and> mapped test_states (byte_at data_int ''TEST_STATE_OFFSET'')
         \<and> mapped response_codes (decode data_int ''RESULT_OFFSET''))"

text \<open>
  The events of the session. \<open>received self x\<close> is what \<^verbatim>\<open>recv(BUFFER_SIZE)\<close> returns on
  the connection \<open>x\<close>; \<open>exchange_events\<close> are the events of one round of \<^verbatim>\<open>call\<close> (connect,
  send, sleep, receive), \<open>poll_events\<close> those of one round of the polling loop, and
  \<open>sends\<close> picks the messages sent out of a trace.
\<close>

definition received :: "pathway \<Rightarrow> exchange \<Rightarrow> byte list" where
  "received self x = take (BUFFER_SIZE self) (reply x)"

definition exchange_events :: "pathway \<Rightarrow> int \<Rightarrow> int option \<Rightarrow> exchange \<Rightarrow> io_event list" where
  "exchange_events self c protocol x =
     [Connect, Send (format_command (clock x) c protocol), Sleep After_send,
      Recv (received self x)]"

definition sends :: "io_event list \<Rightarrow> byte list list" where
  "sends evs = concat (map (\<lambda>ev. case ev of Send m \<Rightarrow> [m] | _ \<Rightarrow> []) evs)"

definition poll_events :: "pathway \<Rightarrow> exchange \<Rightarrow> io_event list" where
  "poll_events self x = exchange_events self 0 None x @ [Sleep Poll_interval]"

section \<open>Binary strings and bytes\<close>

lemma str_bit: "str (drop_bit i x AND 1) = (if bit x i then ''1'' else ''0'')"
proof -
  have "drop_bit i x AND 1 = of_bool (bit x i)"
    by (simp add: and_one_eq bit_iff_odd_drop_bit mod_2_eq_odd)
  then show ?thesis
    by (simp add: str_def digits.simps)
qed

lemma foldl_base2_acc:
  fixes acc :: int
  defines "f \<equiv> \<lambda>acc c. 2 * acc + (if c = CHR ''1'' then 1 else (0::int))"
  shows "foldl f acc s = acc * 2 ^ length s + foldl f 0 s"
proof (induction s arbitrary: acc)
  case Nil
  show ?case by simp
next
  case (Cons c s)
  have "foldl f (f acc c) s = f acc c * 2 ^ length s + foldl f 0 s"
    by (rule Cons.IH)
  moreover have "foldl f (f 0 c) s = f 0 c * 2 ^ length s + foldl f 0 s"
    by (rule Cons.IH)
  moreover have "f acc c = 2 * acc + f 0 c"
    by (simp add: f_def)
  ultimately show ?case
    by (simp add: algebra_simps)
qed

lemma int_base2_append:
  "int_base2 (s @ t) = int_base2 s * 2 ^ length t + int_base2 t"
  unfolding int_base2_def foldl_append by (rule foldl_base2_acc)

lemma bits_Suc: "bits x a (Suc n) = (if bit x (a + n) then ''1'' else ''0'') @ bits x a n"
  by (simp add: bits_def str_bit)

lemma length_bits: "length (bits x a n) = n"
  by (induction n) (simp_all add: bits_Suc, simp add: bits_def)

lemma int_base2_bits: "int_base2 (bits x a n) = take_bit n (drop_bit a x)"
proof (induction n)
  case 0
  show ?case by (simp add: bits_def int_base2_def)
next
  case (Suc n)
  have "int_base2 (bits x a (Suc n)) = of_bool (bit x (a + n)) * 2 ^ n + int_base2 (bits x a n)"
    by (simp add: bits_Suc int_base2_append length_bits) (simp add: int_base2_def)
  also have "\<dots> = take_bit (Suc n) (drop_bit a x)"
    by (simp add: Suc.IH take_bit_Suc_from_most bit_drop_bit_eq add.commute)
  finally show ?case .
qed

lemma bits_add: "bits x a (m + n) = bits x (a + m) n @ bits x a m"
proof -
  have "[a..<a + (m + n)] = [a..<a + m] @ [a + m..<a + m + n]"
    by (metis add.assoc upt_add_eq_append le_add1)
  then show ?thesis
    by (simp add: bits_def)
qed

lemma bin32_bits: "bin32 x = bits x 24 8 @ bits x 16 8 @ bits x 8 8 @ bits x 0 8"
proof -
  have "bin32 x = bits x 0 (8 + (8 + (8 + 8)))"
    by (simp add: bin32_def bits_def)
  then show ?thesis
    by (simp only: bits_add) simp
qed

lemma bin8_bits: "bin8 x = bits x 0 8"
  by (simp add: bin8_def bits_def)

lemma bytelist_bin32:
  "bytelist (bin32 x) =
     [take_bit 8 x, take_bit 8 (drop_bit 8 x), take_bit 8 (drop_bit 16 x),
      take_bit 8 (drop_bit 24 x)]"
proof -
  have "[1..<5] = [1, 2, 3, 4::nat]"
    by (simp add: upt_rec)
  then show ?thesis
    by (simp add: bytelist_def slice_def bin32_bits length_bits int_base2_bits)
qed

lemma take_bit_split8:
  "take_bit (8 + n) (x::int) = take_bit n (drop_bit 8 x) * 2 ^ 8 + take_bit 8 x"
proof -
  have "take_bit (8 + n) x = x mod (2 ^ 8 * 2 ^ n)"
    by (simp add: take_bit_eq_mod power_add)
  also have "\<dots> = 2 ^ 8 * (x div 2 ^ 8 mod 2 ^ n) + x mod 2 ^ 8"
    by (rule zmod_zmult2_eq) simp
  finally show ?thesis
    by (simp add: take_bit_eq_mod drop_bit_eq_div)
qed

lemma take_bit_32_bytes:
  "take_bit 32 (x::int) = ((take_bit 8 (drop_bit 24 x) * 2 ^ 8 + take_bit 8 (drop_bit 16 x)) * 2 ^ 8
      + take_bit 8 (drop_bit 8 x)) * 2 ^ 8 + take_bit 8 x"
proof -
  have "take_bit 32 x = take_bit (8 + (8 + (8 + 8))) x"
    by simp
  also have "\<dots> = ((take_bit 8 (drop_bit 8 (drop_bit 8 (drop_bit 8 x))) * 2 ^ 8
      + take_bit 8 (drop_bit 8 (drop_bit 8 x))) * 2 ^ 8
      + take_bit 8 (drop_bit 8 x)) * 2 ^ 8 + take_bit 8 x"
    by (simp only: take_bit_split8)
  finally show ?thesis
    by simp
qed



lemma bytelist_bin32_le32: "bytelist (bin32 x) = le32 x"
  by (simp add: bytelist_bin32 le32_def)

lemma length_le32: "length (le32 x) = 4"
  by (simp add: le32_def)

lemma format_command_le32:
  "format_command now c p =
     map word_of_int
       (if c = 1 \<and> truthy p then le32 9 @ le32 now @ [c] @ le32 (the p)
        else le32 5 @ le32 now @ [c])"
  by (simp add: format_command_def Let_def bytelist_bin32_le32 length_le32)

lemma uint_byte_take_bit: "uint (word_of_int (take_bit 8 k) :: byte) = take_bit 8 k"
  by (simp add: uint_word_of_int_eq)

lemma map_uint_le32: "map (uint \<circ> (word_of_int :: int \<Rightarrow> byte)) (le32 x) = le32 x"
  by (simp add: le32_def uint_word_of_int_eq)

lemma bits_nonempty: "bits x a (Suc n) \<noteq> []"
  using length_bits [of x a "Suc n"] by auto

lemma decode_span_4:
  assumes "slice data_int a b = [b0, b1, b2, b3]" and "b - a = 4"
  shows "decode_span data_int a b =
           Inr (((take_bit 8 b3 * 2 ^ 8 + take_bit 8 b2) * 2 ^ 8 + take_bit 8 b1) * 2 ^ 8
                + take_bit 8 b0)"
proof -
  have upt: "[0..<4] = [0, 1, 2, 3::nat]"
    by (simp add: upt_rec)
  have ne: "bits b3 0 8 \<noteq> []"
    using bits_nonempty [of b3 0 7] by simp
  show ?thesis
    using assms ne
    by (simp add: decode_span_def Let_def upt bin8_bits int_base2_append length_bits
        int_base2_bits)
qed

lemma decode_span_le32:
  assumes "slice data_int a b = le32 x" and "b - a = 4"
  shows "decode_span data_int a b = Inr (take_bit 32 x)"
  using decode_span_4 [OF assms(1) [unfolded le32_def] assms(2)]
  by (simp add: take_bit_32_bytes)

lemma decode_LENGTH: "decode data_int ''LENGTH_OFFSET'' = decode_span data_int 0 4"
  by (simp add: decode_def getitem_def segmentation_points_def)

lemma decode_TIMESTAMP: "decode data_int ''TIMESTAMP_OFFSET'' = decode_span data_int 4 8"
  by (simp add: decode_def getitem_def segmentation_points_def)

lemma byte_at_COMMAND:
  "byte_at data_int ''COMMAND_OFFSET'' = (if 8 < length data_int then Inr (data_int ! 8) else Inl IndexError)"
  by (simp add: byte_at_def getitem_def segmentation_points_def)

lemma command_code_range:
  assumes "getitem command_codes c = Inr name"
  shows "0 \<le> c \<and> c \<le> 8"
  using assms by (simp add: getitem_def command_codes_def split: if_splits)

section \<open>The response dictionary, field by field\<close>

lemma attempt_simps:
  "attempt d (Inl e) k = (d, Some e)"
  "attempt d (Inr v) k = k v"
  by (simp_all add: attempt_def)

lemma setitems:
  "setitem [] k v = [(k, v)]"
  "k \<noteq> k' \<Longrightarrow> setitem ((k', v') # d) k v = (k', v') # setitem d k v"
  by (auto simp: setitem_def)

lemma lookup_code_simps:
  "lookup_code table (Inl e) = Inl e"
  "getitem table c = Inl e \<Longrightarrow> lookup_code table (Inr c) = Inl e"
  "getitem table c = Inr name \<Longrightarrow> lookup_code table (Inr c) = Inr (PyStr name)"
  by (simp_all add: lookup_code_def)

lemma format_response_decoded_so_far:
  "format_response ctime data nbytes = decoded_so_far (field_results ctime data)"
  unfolding format_response_def format_response_try_def field_results_def Let_def
  apply (cases "decode (map uint data) ''LENGTH_OFFSET''")
   apply (simp add: attempt_simps)
  apply (cases "decode (map uint data) ''TIMESTAMP_OFFSET''")
   apply (simp add: attempt_simps setitems)
  apply (cases "byte_at (map uint data) ''COMMAND_OFFSET''")
   apply (simp add: attempt_simps setitems lookup_code_simps)
  subgoal for len ts c
  apply (cases "getitem command_codes c")
   apply (simp add: attempt_simps setitems lookup_code_simps)
  apply (cases "byte_at (map uint data) ''SYSTEM_STATE_OFFSET''")
   apply (simp add: attempt_simps setitems lookup_code_simps)
  subgoal for command_id s
  apply (cases "getitem state_codes s")
   apply (simp add: attempt_simps setitems lookup_code_simps)
  apply (cases "byte_at (map uint data) ''TEST_STATE_OFFSET''")
   apply (simp add: attempt_simps setitems lookup_code_simps)
  subgoal for pathway_state t
  apply (cases "getitem test_states t")
   apply (simp add: attempt_simps setitems lookup_code_simps)
  apply (cases "decode (map uint data) ''RESULT_OFFSET''")
   apply (simp add: attempt_simps setitems lookup_code_simps)
  subgoal for test_state r
  apply (cases "getitem response_codes r")
   apply (simp add: attempt_simps setitems lookup_code_simps)
  apply (cases "decode_test_time (map uint data)")
   apply (simp add: attempt_simps setitems lookup_code_simps)
  apply (simp add: attempt_simps setitems lookup_code_simps)
  done
  done
  done
  done
  done

lemma bin8_nonempty: "bin8 x \<noteq> []"
  using bits_nonempty [of x 0 7] by (simp add: bin8_bits)

lemma decode_span_short:
  assumes "length xs < b" and "a < b"
  shows "decode_span xs a b = Inl IndexError"
  using assms by (simp add: decode_span_def slice_def)

lemma decode_span_ok:
  assumes "b \<le> length xs" and "a < b"
  shows "\<exists>v. decode_span xs a b = Inr v"
proof -
  from assms have "0 \<in> set [0..<b - a]"
    by simp
  then have "concat (rev (map (\<lambda>i. bin8 (slice xs a b ! i)) [0..<b - a])) \<noteq> []"
    using bin8_nonempty by fastforce
  with assms show ?thesis
    by (simp add: decode_span_def slice_def Let_def)
qed

lemma decode_RESULT: "decode data_int ''RESULT_OFFSET'' = decode_span data_int 11 13"
  by (simp add: decode_def getitem_def segmentation_points_def)

lemma decode_TEST_TIME: "decode data_int ''TEST_TIME_OFFSET'' = decode_span data_int 13 17"
  by (simp add: decode_def getitem_def segmentation_points_def)

lemma byte_at_SYSTEM_STATE:
  "byte_at data_int ''SYSTEM_STATE_OFFSET'' = (if 9 < length data_int then Inr (data_int ! 9) else Inl IndexError)"
  by (simp add: byte_at_def getitem_def segmentation_points_def)

lemma byte_at_TEST_STATE:
  "byte_at data_int ''TEST_STATE_OFFSET'' = (if 10 < length data_int then Inr (data_int ! 10) else Inl IndexError)"
  by (simp add: byte_at_def getitem_def segmentation_points_def)

lemma decode_test_time_short:
  "length data_int < 17 \<Longrightarrow> decode_test_time data_int = Inl IndexError"
  by (simp add: decode_test_time_def decode_TEST_TIME decode_span_short)

lemma decode_test_time_ok:
  "17 \<le> length data_int \<Longrightarrow> \<exists>s. decode_test_time data_int = Inr s"
  using decode_span_ok [of 17 data_int 13]
  by (auto simp: decode_test_time_def decode_TEST_TIME Let_def)

lemma length_decoded_so_far: "length (decoded_so_far fs) \<le> length fs"
  by (induction fs rule: decoded_so_far.induct) simp_all

lemma decoded_so_far_stops:
  "i < length fs \<Longrightarrow> isl (snd (fs ! i)) \<Longrightarrow> length (decoded_so_far fs) \<le> i"
proof (induction fs arbitrary: i rule: decoded_so_far.induct)
  case 1
  then show ?case by simp
next
  case (2 k e fs)
  then show ?case by simp
next
  case (3 k v fs)
  then show ?case
    by (cases i) auto
qed

lemma keys_decoded_so_far:
  "map fst (decoded_so_far fs) = take (length (decoded_so_far fs)) (map fst fs)"
  by (induction fs rule: decoded_so_far.induct) simp_all

lemma lookup_code_unmapped: "unmapped table r \<Longrightarrow> lookup_code table r = Inl KeyError"
  by (auto simp: unmapped_def lookup_code_def getitem_def split: sum.splits)

lemma decode_LENGTH_short: "length data < 4 \<Longrightarrow> decode (map uint data) ''LENGTH_OFFSET'' = Inl IndexError"
  by (simp add: decode_LENGTH decode_span_short)

lemma field_fails_partial:
  assumes "i < length (field_results ctime data)"
    and "isl (snd (field_results ctime data ! i))"
  shows "length (format_response ctime data nbytes) < length (field_results ctime data)"
  using decoded_so_far_stops [OF assms] assms(1)
  by (simp add: format_response_decoded_so_far)

lemma too_short_partial:
  assumes "length data < needed_length data"
  shows "length (format_response ctime data nbytes) < length (field_results ctime data)"
proof (cases "length data < 17")
  case True
  then have "isl (snd (field_results ctime data ! 6))"
    by (simp add: field_results_def Let_def nth_append decode_test_time_short)
  moreover have "6 < length (field_results ctime data)"
    by (simp add: field_results_def Let_def)
  ultimately show ?thesis
    by (rule field_fails_partial [rotated])
next
  case False
  with assms obtain len where len: "decode (map uint data) ''LENGTH_OFFSET'' = Inr len" "13 < len"
    and l17: "length data = 17"
    by (auto simp: needed_length_def split: sum.splits if_splits)
  then have "isl (snd (field_results ctime data ! 7))"
    by (simp add: field_results_def Let_def nth_append)
  moreover from len have "7 < length (field_results ctime data)"
    by (simp add: field_results_def Let_def)
  ultimately show ?thesis
    by (rule field_fails_partial [rotated])
qed

lemma unmapped_partial:
  assumes "unmapped command_codes (byte_at (map uint data) ''COMMAND_OFFSET'')
         \<or> unmapped state_codes (byte_at (map uint data) ''SYSTEM_STATE_OFFSET'')
         \<or> unmapped test_states (byte_at (map uint data) ''TEST_STATE_OFFSET'')
         \<or> unmapped response_codes (decode (map uint data) ''RESULT_OFFSET'')"
  shows "length (format_response ctime data nbytes) < length (field_results ctime data)"
proof -
  from assms have "\<exists>i \<in> {2, 3, 4, 5}. isl (snd (field_results ctime data ! i))"
    by (auto simp: field_results_def Let_def nth_append dest!: lookup_code_unmapped)
  then obtain i where "i \<in> {2, 3, 4, 5}" and "isl (snd (field_results ctime data ! i))"
    by blast
  then have "i < 7" and "isl (snd (field_results ctime data ! i))"
    by auto
  moreover have "7 \<le> length (field_results ctime data)"
    by (simp add: field_results_def Let_def)
  ultimately show ?thesis
    by (intro field_fails_partial [of i]) simp_all
qed

lemma unmapped_command_keys:
  assumes "8 < length data"
    and "unmapped command_codes (byte_at (map uint data) ''COMMAND_OFFSET'')"
  shows "map fst (format_response ctime data nbytes) = [''response_length'', ''time_stamp'']"
proof -
  from assms(1) obtain len where len: "decode (map uint data) ''LENGTH_OFFSET'' = Inr len"
    using decode_span_ok [of 4 "map uint data" 0] by (auto simp: decode_LENGTH)
  from assms(1) obtain ts where ts: "decode (map uint data) ''TIMESTAMP_OFFSET'' = Inr ts"
    using decode_span_ok [of 8 "map uint data" 4] by (auto simp: decode_TIMESTAMP)
  from assms(2) have "lookup_code command_codes (byte_at (map uint data) ''COMMAND_OFFSET'') = Inl KeyError"
    by (rule lookup_code_unmapped)
  with len ts show ?thesis
    by (simp add: format_response_decoded_so_far field_results_def Let_def)
qed

lemma mapped_lookup: "mapped table r \<Longrightarrow> \<exists>name. lookup_code table r = Inr (PyStr name)"
  by (auto simp: mapped_def lookup_code_def getitem_def split: sum.splits)

lemma keys_field_results:
  "map fst (field_results ctime data) =
     take (length (field_results ctime data))
       [''response_length'', ''time_stamp'', ''command_id'', ''pathway_state'', ''test_state'',
        ''response'', ''test_time_stamp'', ''error_message'']"
  by (simp add: field_results_def Let_def split: sum.splits)

section \<open>The session, round by round\<close>

lemma format_response_empty_iff:
  "format_response ctime data nbytes = [] \<longleftrightarrow> length data < 4"
proof (cases "length data < 4")
  case True
  then show ?thesis
    by (simp add: format_response_decoded_so_far field_results_def Let_def decode_LENGTH_short)
next
  case False
  then obtain len where "decode (map uint data) ''LENGTH_OFFSET'' = Inr len"
    using decode_span_ok [of 4 "map uint data" 0] by (auto simp: decode_LENGTH)
  with False show ?thesis
    by (simp add: format_response_decoded_so_far field_results_def Let_def)
qed

lemma call_step:
  assumes "command_number command = Inr c" and "\<not> (c = 1 \<and> protocol = None)"
  shows "call ctime self depth command protocol False \<lparr>script = x # rest, trace = tr\<rparr> =
     (if length (received self x) < 4
      then (case depth of
              0 \<Rightarrow> (Inl RuntimeError,
                    \<lparr>script = rest, trace = tr @ exchange_events self c protocol x\<rparr>)
            | Suc d \<Rightarrow> call ctime self d (Code c) protocol False
                       \<lparr>script = rest, trace = tr @ exchange_events self c protocol x\<rparr>)
      else (Inr (format_response ctime (received self x)
                   (length (format_command (clock x) c protocol))),
            \<lparr>script = rest, trace = tr @ exchange_events self c protocol x\<rparr>))"
proof -
  from assms(2) have guard: "(c = 1 \<and> protocol = None) = False"
    by simp
  have empty: "(format_response ctime (take (BUFFER_SIZE self) (reply x))
                  (length (format_command (clock x) c protocol)) = [])
               = (length (received self x) < 4)"
    by (simp only: format_response_empty_iff received_def)
  show ?thesis
  proof (cases depth)
    case 0
    show ?thesis
      unfolding 0
      by (subst call.simps)
         (simp add: assms(1) guard empty emit_def Let_def exchange_events_def
            del: length_take, simp add: received_def)
  next
    case (Suc d)
    show ?thesis
      unfolding Suc
      by (subst call.simps)
         (simp add: assms(1) guard empty emit_def Let_def exchange_events_def
            del: length_take, simp add: received_def)
  qed
qed

lemma command_number_Code: "command_number (Code c) = Inr c"
  by (simp add: command_number_def)

lemma command_number_STATUS: "command_number (Name ''STATUS'') = Inr 0"
  by (simp add: command_number_def command_codes_def)

lemma command_number_TEST_PROGRAM: "command_number (Name ''TEST_PROGRAM'') = Inr 1"
  by (simp add: command_number_def command_codes_def)

lemma call_reissues:
  assumes c: "command_number command = Inr c" and p: "\<not> (c = 1 \<and> protocol = None)"
    and empty: "\<forall>x \<in> set xs. length (received self x) < 4"
    and y: "4 \<le> length (received self y)"
    and fits: "length xs \<le> depth"
  shows "call ctime self depth command protocol False \<lparr>script = xs @ y # rest, trace = tr\<rparr> =
     (Inr (format_response ctime (received self y)
             (length (format_command (clock y) c protocol))),
      \<lparr>script = rest,
         trace = tr @ concat (map (exchange_events self c protocol) (xs @ [y]))\<rparr>)"
  using c empty fits
proof (induction xs arbitrary: command depth tr)
  case Nil
  with p y show ?case
    by (simp add: call_step)
next
  case (Cons x xs)
  from Cons.prems have short: "length (received self x) < 4"
    and rest: "\<forall>x \<in> set xs. length (received self x) < 4"
    by simp_all
  from Cons.prems(3) obtain d where d: "depth = Suc d" and fits': "length xs \<le> d"
    by (cases depth) simp_all
  have "call ctime self depth command protocol False \<lparr>script = (x # xs) @ y # rest, trace = tr\<rparr> =
        call ctime self d (Code c) protocol False
          \<lparr>script = xs @ y # rest, trace = tr @ exchange_events self c protocol x\<rparr>"
    using short by (simp add: call_step [OF Cons.prems(1) p] d)
  also have "\<dots> = (Inr (format_response ctime (received self y)
             (length (format_command (clock y) c protocol))),
      \<lparr>script = rest,
         trace = (tr @ exchange_events self c protocol x)
                   @ concat (map (exchange_events self c protocol) (xs @ [y]))\<rparr>)"
    by (rule Cons.IH [OF command_number_Code rest fits'])
  finally show ?case
    by simp
qed

text \<open>
  A run of short responses that is longer than the depth left ends with the
  \<^verbatim>\<open>RuntimeError\<close> of the first re-issue that does not fit.
\<close>

lemma call_depth_exceeded:
  assumes p: "\<not> (c = 1 \<and> protocol = None)"
  shows "command_number command = Inr c \<Longrightarrow>
     \<forall>x \<in> set xs. length (received self x) < 4 \<Longrightarrow> depth < length xs \<Longrightarrow>
     call ctime self depth command protocol False \<lparr>script = xs @ rest, trace = tr\<rparr> =
       (Inl RuntimeError,
        \<lparr>script = drop (Suc depth) xs @ rest,
           trace = tr @ concat (map (exchange_events self c protocol) (take (Suc depth) xs))\<rparr>)"
proof (induction depth arbitrary: command xs tr)
  case 0
  then obtain x xs' where xs: "xs = x # xs'"
    by (cases xs) simp_all
  with "0.prems"(2) have "length (received self x) < 4"
    by simp
  then show ?case
    by (simp add: xs call_step [OF "0.prems"(1) p])
next
  case (Suc d)
  then obtain x xs' where xs: "xs = x # xs'"
    by (cases xs) simp_all
  with Suc.prems have short: "length (received self x) < 4"
    and rest': "\<forall>x \<in> set xs'. length (received self x) < 4" and more: "d < length xs'"
    by simp_all
  have "call ctime self (Suc d) command protocol False \<lparr>script = xs @ rest, trace = tr\<rparr> =
        call ctime self d (Code c) protocol False
          \<lparr>script = xs' @ rest, trace = tr @ exchange_events self c protocol x\<rparr>"
    using short by (simp add: xs call_step [OF Suc.prems(1) p])
  also have "\<dots> = (Inl RuntimeError,
        \<lparr>script = drop (Suc d) xs' @ rest,
           trace = (tr @ exchange_events self c protocol x)
                     @ concat (map (exchange_events self c protocol) (take (Suc d) xs'))\<rparr>)"
    by (rule Suc.IH [OF command_number_Code rest' more])
  finally show ?case
    by (simp add: xs)
qed

lemma call_missing_protocol:
  assumes "command_number command = Inr 1"
  shows "call ctime self depth command None False w =
     (case script w of
        [] \<Rightarrow> (Inl SocketError, emit [Connect_failed] w)
      | x # rest \<Rightarrow> (Inl ValueError, emit [Connect] (w\<lparr>script := rest\<rparr>)))"
  using assms by (subst call.simps) (simp add: Let_def split: list.splits)

lemma call_trace_extends:
  "\<exists>evs. trace (snd (call ctime self depth command protocol reuse_socket w)) = trace w @ evs"
proof (induction ctime self depth command protocol reuse_socket w rule: call.induct)
  case (1 ctime self depth command protocol reuse_socket w)
  show ?case
  proof (cases "reuse_socket")
    case True
    then show ?thesis
      by (subst call.simps) simp
  next
    case nr: False
    show ?thesis
    proof (cases "script w")
      case Nil
      with nr show ?thesis
        by (subst call.simps) (simp add: emit_def)
    next
      case (Cons x rest)
      show ?thesis
      proof (cases "command_number command")
        case (Inl e)
        with nr Cons show ?thesis
          by (subst call.simps) (simp add: emit_def)
      next
        case (Inr c)
        show ?thesis
        proof (cases "c = 1 \<and> protocol = None")
          case True
          with nr Cons Inr show ?thesis
            by (subst call.simps) (simp add: emit_def)
        next
          case np: False
          then have guard: "(c = 1 \<and> protocol = None) = False"
            by simp
          define w3 where "w3 = emit [Recv (take (BUFFER_SIZE self) (reply x))]
            (emit [Send (format_command (clock x) c protocol), Sleep After_send]
              (emit [Connect] (w\<lparr>script := rest\<rparr>)))"
          have tr3: "\<exists>evs. trace w3 = trace w @ evs"
            by (simp add: w3_def emit_def)
          show ?thesis
          proof (cases "format_response ctime (take (BUFFER_SIZE self) (reply x))
                          (length (format_command (clock x) c protocol)) = []")
            case True
            show ?thesis
            proof (cases depth)
              case 0
              with nr Cons Inr True
              have "call ctime self depth command protocol reuse_socket w
                      = (Inl RuntimeError, w3)"
                by (subst call.simps) (simp add: guard Let_def w3_def)
              with tr3 show ?thesis
                by simp
            next
              case (Suc d)
              with nr Cons Inr True
              have eq: "call ctime self depth command protocol reuse_socket w =
                          call ctime self d (Code c) protocol False w3"
                by (subst call.simps) (simp add: guard Let_def w3_def)
              from "1.IH" [OF nr Cons refl Inr np refl refl refl refl refl refl True Suc,
                  folded w3_def]
              obtain evs where "trace (snd (call ctime self d (Code c) protocol False w3))
                                  = trace w3 @ evs"
                by blast
              with tr3 show ?thesis
                unfolding eq by auto
            qed
          next
            case False
            with nr Cons Inr
            have eq: "call ctime self depth command protocol reuse_socket w =
                        (Inr (format_response ctime (take (BUFFER_SIZE self) (reply x))
                          (length (format_command (clock x) c protocol))), w3)"
              by (subst call.simps) (simp add: guard Let_def w3_def)
            with tr3 show ?thesis
              by simp
          qed
        qed
      qed
    qed
  qed
qed


lemma call_no_ValueError_script:
  assumes "\<not> (c = 1 \<and> protocol = None)"
  shows "command_number command = Inr c \<Longrightarrow>
         fst (call ctime self depth command protocol False \<lparr>script = xs, trace = tr\<rparr>)
           \<noteq> Inl ValueError"
proof (induction xs arbitrary: command depth tr)
  case Nil
  show ?case
    by (subst call.simps) simp
next
  case (Cons x xs)
  show ?case
  proof (cases "length (received self x) < 4")
    case True
    then show ?thesis
      using Cons.IH [OF command_number_Code]
      by (cases depth) (simp_all add: call_step [OF Cons.prems assms])
  next
    case False
    then show ?thesis
      by (simp add: call_step [OF Cons.prems assms])
  qed
qed

lemma call_first_exchange:
  assumes "command_number command = Inr c" and "\<not> (c = 1 \<and> protocol = None)"
  shows "\<exists>evs. trace (snd (call ctime self depth command protocol False
                            \<lparr>script = x # rest, trace = tr\<rparr>))
           = tr @ exchange_events self c protocol x @ evs"
proof (cases "length (received self x) < 4")
  case True
  show ?thesis
  proof (cases depth)
    case 0
    with True show ?thesis
      by (simp add: call_step [OF assms])
  next
    case (Suc d)
    obtain evs where "trace (snd (call ctime self d (Code c) protocol False
        \<lparr>script = rest, trace = tr @ exchange_events self c protocol x\<rparr>))
      = trace \<lparr>script = rest, trace = tr @ exchange_events self c protocol x\<rparr> @ evs"
      using call_trace_extends by blast
    with True Suc show ?thesis
      by (simp add: call_step [OF assms])
  qed
next
  case False
  then show ?thesis
    by (simp add: call_step [OF assms])
qed

lemma sends_exchanges:
  "sends (concat (map (exchange_events self c protocol) xs))
     = map (\<lambda>x. format_command (clock x) c protocol) xs"
  by (induction xs) (simp_all add: sends_def exchange_events_def)

lemma sends_polls:
  "sends (concat (map (poll_events self) xs)) = map (\<lambda>x. format_command (clock x) 0 None) xs"
  by (induction xs) (simp_all add: sends_def poll_events_def exchange_events_def)

lemma no_lag_in_polls: "Sleep Server_lag \<notin> set (concat (map (poll_events self) xs))"
  by (induction xs) (simp_all add: poll_events_def exchange_events_def)

lemma format_response_nbytes: "format_response ctime data n = format_response ctime data m"
  by (simp add: format_response_def)

lemma getitem_Nil: "getitem [] k = Inl KeyError"
  by (simp add: getitem_def)

lemma poll_step:
  assumes ne: "val \<noteq> desired"
    and field: "getitem (format_response ctime (received self x) 9) to_watch = Inr v"
  shows "poll_loop ctime self depth to_watch desired poll_max val count \<lparr>script = x # rest, trace = tr\<rparr> =
     (if poll_max > 0 \<and> count + 1 > poll_max
      then (Inr False, \<lparr>script = rest, trace = tr @ poll_events self x\<rparr>)
      else poll_loop ctime self depth to_watch desired poll_max v (count + 1)
             \<lparr>script = rest, trace = tr @ poll_events self x\<rparr>)"
proof -
  from field have nonempty: "format_response ctime (received self x) 9 \<noteq> []"
    by (auto simp: getitem_Nil)
  then have long: "\<not> length (received self x) < 4"
    by (simp add: format_response_empty_iff)
  have nb: "format_response ctime (received self x) (length (format_command (clock x) 0 None))
            = format_response ctime (received self x) 9"
    by (rule format_response_nbytes)
  have call: "call ctime self depth (Name ''STATUS'') None False \<lparr>script = x # rest, trace = tr\<rparr> =
      (Inr (format_response ctime (received self x) 9),
       \<lparr>script = rest, trace = tr @ exchange_events self 0 None x\<rparr>)"
    using long by (simp add: call_step [OF command_number_STATUS] nb)
  show ?thesis
    by (subst poll_loop.simps) (simp add: ne call nonempty field emit_def poll_events_def Let_def)
qed

lemma poll_loop_exhausts:
  assumes pos: "0 < poll_max"
  shows "val \<noteq> desired \<Longrightarrow> xs \<noteq> [] \<Longrightarrow> int (length xs) = poll_max - count + 1 \<Longrightarrow>
     \<forall>x \<in> set xs. \<exists>v. getitem (format_response ctime (received self x) 9) to_watch = Inr v
                       \<and> v \<noteq> desired \<Longrightarrow>
     poll_loop ctime self depth to_watch desired poll_max val count \<lparr>script = xs @ rest, trace = tr\<rparr>
       = (Inr False, \<lparr>script = rest, trace = tr @ concat (map (poll_events self) xs)\<rparr>)"
proof (induction xs arbitrary: val count tr)
  case Nil
  then show ?case by simp
next
  case (Cons x xs)
  from Cons.prems(4) obtain v
    where v: "getitem (format_response ctime (received self x) 9) to_watch = Inr v"
      and neq: "v \<noteq> desired"
    by auto
  have step: "poll_loop ctime self depth to_watch desired poll_max val count
                 \<lparr>script = (x # xs) @ rest, trace = tr\<rparr> =
     (if poll_max > 0 \<and> count + 1 > poll_max
      then (Inr False, \<lparr>script = xs @ rest, trace = tr @ poll_events self x\<rparr>)
      else poll_loop ctime self depth to_watch desired poll_max v (count + 1)
             \<lparr>script = xs @ rest, trace = tr @ poll_events self x\<rparr>)"
    using poll_step [OF Cons.prems(1) v, of depth poll_max count "xs @ rest" tr] by simp
  show ?case
  proof (cases xs)
    case Nil
    with Cons.prems(3) pos have last: "poll_max > 0 \<and> count + 1 > poll_max"
      by simp
    have "poll_loop ctime self depth to_watch desired poll_max val count
            \<lparr>script = (x # xs) @ rest, trace = tr\<rparr>
          = (Inr False, \<lparr>script = xs @ rest, trace = tr @ poll_events self x\<rparr>)"
      using last by (simp only: step if_P if_True)
    with Nil show ?thesis
      by simp
  next
    case (Cons x' xs')
    with Cons.prems(3) have more: "\<not> (poll_max > 0 \<and> count + 1 > poll_max)"
      and len: "int (length xs) = poll_max - (count + 1) + 1"
      by auto
    from Cons have "xs \<noteq> []"
      by simp
    with neq len Cons.prems(4)
    have "poll_loop ctime self depth to_watch desired poll_max v (count + 1)
             \<lparr>script = xs @ rest, trace = tr @ poll_events self x\<rparr>
          = (Inr False, \<lparr>script = rest,
               trace = (tr @ poll_events self x) @ concat (map (poll_events self) xs)\<rparr>)"
      by (intro Cons.IH) simp_all
    moreover have "poll_loop ctime self depth to_watch desired poll_max val count
            \<lparr>script = (x # xs) @ rest, trace = tr\<rparr>
          = poll_loop ctime self depth to_watch desired poll_max v (count + 1)
             \<lparr>script = xs @ rest, trace = tr @ poll_events self x\<rparr>"
      using more by (simp only: step if_not_P if_False)
    ultimately show ?thesis
      by simp
  qed
qed

lemma poll_loop_never_False:
  "poll_max \<le> 0 \<Longrightarrow>
     fst (poll_loop ctime self depth to_watch desired poll_max val count w) \<noteq> Inr False"
proof (induction ctime self depth to_watch desired poll_max val count w rule: poll_loop.induct)
  case (1 ctime self depth to_watch desired_value poll_max val count w)
  show ?case
  proof (cases "val \<noteq> desired_value")
    case False
    then show ?thesis
      by (subst poll_loop.simps) simp
  next
    case ne: True
    obtain r w1 where c: "call ctime self depth (Name ''STATUS'') None False w = (r, w1)"
      by (cases "call ctime self depth (Name ''STATUS'') None False w")
    show ?thesis
    proof (cases r)
      case (Inl e)
      with ne c show ?thesis
        by (subst poll_loop.simps) simp
    next
      case (Inr resp)
      show ?thesis
      proof (cases "if resp \<noteq> [] then getitem resp to_watch
                    else Inr (PyStr ''RESPONSE_FORMAT_ERROR'')")
        case (Inl e)
        with ne c Inr show ?thesis
          by (subst poll_loop.simps) (simp split del: if_split)
      next
        case val': (Inr val')
        from "1.prems" have no: "\<not> (poll_max > 0 \<and> count + 1 > poll_max)"
          by simp
        from "1.IH" [OF ne c [symmetric] Inr val' refl refl no "1.prems"]
        have "fst (poll_loop ctime self depth to_watch desired_value poll_max val' (count + 1)
                     (emit [Sleep Poll_interval] w1)) \<noteq> Inr False"
          by simp
        moreover from "1.prems" have "(0 < poll_max) = False"
          by simp
        ultimately show ?thesis
          using ne c Inr val'
          by (subst poll_loop.simps) (simp add: Let_def split del: if_split)
      qed
    qed
  qed
qed


lemma echo_command_id:
  assumes cmd: "getitem command_codes c = Inr name"
  shows "getitem (format_response ctime (format_command now c p) nbytes) ''command_id''
           = Inr (PyStr name)"
proof -
  let ?data = "format_command now c p"
  from cmd have range: "0 \<le> c" "c \<le> 8"
    using command_code_range by blast+
  then have c8: "uint (word_of_int c :: byte) = c"
    by (simp add: uint_word_of_int_eq take_bit_int_eq_self)
  have "9 \<le> length (map uint ?data)"
    by (simp add: format_command_le32 length_le32)
  then obtain len ts where len: "decode (map uint ?data) ''LENGTH_OFFSET'' = Inr len"
    and ts: "decode (map uint ?data) ''TIMESTAMP_OFFSET'' = Inr ts"
    using decode_span_ok [of 4 "map uint ?data" 0] decode_span_ok [of 8 "map uint ?data" 4]
    by (auto simp: decode_LENGTH decode_TIMESTAMP)
  have "byte_at (map uint ?data) ''COMMAND_OFFSET'' = Inr c"
    by (simp add: byte_at_COMMAND format_command_le32 length_le32 nth_append c8)
  with cmd have "lookup_code command_codes (byte_at (map uint ?data) ''COMMAND_OFFSET'')
      = Inr (PyStr name)"
    by (simp add: lookup_code_simps)
  with len ts show ?thesis
    by (simp add: format_response_decoded_so_far field_results_def Let_def getitem_def)
qed

section \<open>Properties of the codec\<close>

text \<open>
  Claim C1. Decoding what \<open>format_command\<close> produced gives the command back: for every
  command code \<open>c\<close> of the table and every positive protocol number \<open>n\<close>, the byte at
  the command offset of the encoded message is \<open>c\<close>, \<open>format_response\<close> applied to the
  encoded message reports the name of \<open>c\<close> as \<^verbatim>\<open>command_id\<close>, and for \<^verbatim>\<open>TEST_PROGRAM\<close>
  the four payload bytes at offsets 9 to 12, assembled as \<^verbatim>\<open>_decode\<close> assembles a field,
  give the low 32 bits of \<open>n\<close>, which is \<open>n\<close> itself for a 32-bit protocol number.
\<close>

theorem codec_round_trip:
  assumes cmd: "getitem command_codes c = Inr name" and n: "0 < n"
  shows "byte_at (map uint (format_command now c (Some n))) ''COMMAND_OFFSET'' = Inr c
       \<and> getitem (format_response ctime (format_command now c (Some n)) nbytes) ''command_id''
           = Inr (PyStr name)
       \<and> (c = 1 \<longrightarrow> decode_span (map uint (format_command now c (Some n))) 9 13 = Inr (n mod 2 ^ 32))
       \<and> (c = 1 \<longrightarrow> n < 2 ^ 32 \<longrightarrow> decode_span (map uint (format_command now c (Some n))) 9 13 = Inr n)"
proof -
  from cmd have range: "0 \<le> c" "c \<le> 8"
    using command_code_range by blast+
  then have c8: "uint (word_of_int c :: byte) = c"
    by (simp add: uint_word_of_int_eq take_bit_int_eq_self)
  have first: "byte_at (map uint (format_command now c (Some n))) ''COMMAND_OFFSET'' = Inr c"
    by (simp add: byte_at_COMMAND format_command_le32 length_le32 nth_append c8)
  have payload: "decode_span (map uint (format_command now c (Some n))) 9 13 = Inr (n mod 2 ^ 32)"
    if "c = 1"
  proof -
    from n that have "slice (map uint (format_command now c (Some n))) 9 13 = le32 n"
      by (simp add: format_command_le32 truthy_def slice_def length_le32 map_uint_le32)
    then have "decode_span (map uint (format_command now c (Some n))) 9 13 = Inr (take_bit 32 n)"
      by (rule decode_span_le32) simp
    then show ?thesis
      by (simp add: take_bit_eq_mod)
  qed
  from first payload n echo_command_id [OF cmd] show ?thesis
    by simp
qed

theorem codec_round_trip_witness:
  "getitem command_codes 1 = Inr ''TEST_PROGRAM''
   \<and> byte_at (map uint (format_command 1700000000 1 (Some 100))) ''COMMAND_OFFSET'' = Inr 1
   \<and> getitem (format_response str (format_command 1700000000 1 (Some 100)) 13) ''command_id''
       = Inr (PyStr ''TEST_PROGRAM'')
   \<and> decode_span (map uint (format_command 1700000000 1 (Some 100))) 9 13 = Inr 100"
proof -
  have cmd: "getitem command_codes 1 = Inr ''TEST_PROGRAM''"
    by (simp add: getitem_def command_codes_def)
  have pos: "(0::int) < 100"
    by simp
  from codec_round_trip [OF cmd pos, of 1700000000 str 13] cmd show ?thesis
    by simp
qed

text \<open>
  Claim C2. The length prefix of an encoded message, read back as \<^verbatim>\<open>_decode\<close> reads the
  length field, is the number of elements that follow it: 9 when the protocol payload is
  there (command 1 with a protocol number that Python takes as true) and 5 otherwise.
\<close>

theorem length_prefix_exact:
  "decode (map uint (format_command now c p)) ''LENGTH_OFFSET''
     = Inr (int (length (format_command now c p)) - 4)
   \<and> int (length (format_command now c p)) - 4 = (if c = 1 \<and> truthy p then 9 else 5)"
proof -
  have "slice (map uint (format_command now c p)) 0 4 = le32 (if c = 1 \<and> truthy p then 9 else 5)"
    by (simp add: format_command_le32 slice_def length_le32 map_uint_le32)
  then have "decode_span (map uint (format_command now c p)) 0 4
               = Inr (take_bit 32 (if c = 1 \<and> truthy p then 9 else 5))"
    by (rule decode_span_le32) simp
  moreover have "int (length (format_command now c p)) - 4 = (if c = 1 \<and> truthy p then 9 else 5)"
    by (simp add: format_command_le32 length_le32)
  ultimately show ?thesis
    by (simp add: decode_LENGTH)
qed

text \<open>
  Claim C7. The code renders the milliseconds with \<^verbatim>\<open>%3d\<close>, a width padded with spaces,
  where hours, minutes and seconds use the zero-padding \<^verbatim>\<open>%.2d\<close>: a test time of
  3661001 ms (bytes 201, 220, 55, 0 at offsets 13 to 16) comes out as
  \<^verbatim>\<open>01:01:01.  1\<close> and a test time of 0 as \<^verbatim>\<open>00:00:00.  0\<close>.
\<close>

theorem decode_test_time_space_padded:
  "decode_test_time [0, 0, 0, 0, 0, 0, 0, 0, 0, 0, 0, 0, 0, 201, 220, 55, 0] = Inr ''01:01:01.  1''
   \<and> decode_test_time [0, 0, 0, 0, 0, 0, 0, 0, 0, 0, 0, 0, 0, 0, 0, 0, 0] = Inr ''00:00:00.  0''"
  by code_simp

section \<open>Properties of the response decoder\<close>

text \<open>
  Claim C9. \<open>format_response\<close> is total: for every byte string, the empty one included,
  it returns a dictionary, and that dictionary holds exactly the fields that were decoded
  before the first failure, so that its keys are an initial part of the order in which
  the fields are decoded. No exception leaves it: the result is a dictionary whatever
  happened inside the \<^verbatim>\<open>try\<close> block.
\<close>

theorem format_response_total:
  "format_response ctime data nbytes = decoded_so_far (field_results ctime data)
   \<and> map fst (format_response ctime data nbytes) =
       take (length (format_response ctime data nbytes))
         [''response_length'', ''time_stamp'', ''command_id'', ''pathway_state'', ''test_state'',
          ''response'', ''test_time_stamp'', ''error_message'']
   \<and> format_response ctime [] nbytes = []"
proof -
  let ?r = "format_response ctime data nbytes" and ?fs = "field_results ctime data"
  have r: "?r = decoded_so_far ?fs"
    by (rule format_response_decoded_so_far)
  have "map fst ?r = take (length ?r) (map fst ?fs)"
    unfolding r by (rule keys_decoded_so_far)
  also have "\<dots> = take (length ?r) (take (length ?fs) [''response_length'', ''time_stamp'',
      ''command_id'', ''pathway_state'', ''test_state'', ''response'', ''test_time_stamp'',
      ''error_message''])"
    using keys_field_results [of ctime data] by simp
  also have "\<dots> = take (length ?r) [''response_length'', ''time_stamp'',
      ''command_id'', ''pathway_state'', ''test_state'', ''response'', ''test_time_stamp'',
      ''error_message'']"
    using length_decoded_so_far [of ?fs] by (simp add: r min_def)
  finally have keys: "map fst ?r = take (length ?r) [''response_length'', ''time_stamp'',
      ''command_id'', ''pathway_state'', ''test_state'', ''response'', ''test_time_stamp'',
      ''error_message'']" .
  have "decode [] ''LENGTH_OFFSET'' = Inl IndexError"
    by (simp add: decode_LENGTH decode_span_short)
  then have "format_response ctime [] nbytes = []"
    by (simp add: format_response_decoded_so_far field_results_def)
  with r keys show ?thesis
    by blast
qed

text \<open>
  Claim C3, as the code has it. A response that is too short for an offset that is read,
  or whose command, state, test state or result code has no table entry, does not make
  \<open>format_response\<close> fail: it returns the dictionary of the fields decoded before the
  failing one, which has fewer entries than there are fields to decode; the failing field
  shows only as the first key that is missing. With an unmapped command byte the result
  holds \<^verbatim>\<open>response_length\<close> and \<^verbatim>\<open>time_stamp\<close> and nothing else.
\<close>

theorem format_response_partial_on_malformed:
  assumes "malformed data"
  shows "format_response ctime data nbytes = decoded_so_far (field_results ctime data)
       \<and> length (format_response ctime data nbytes) < length (field_results ctime data)
       \<and> (8 < length data \<and> unmapped command_codes (byte_at (map uint data) ''COMMAND_OFFSET'')
            \<longrightarrow> map fst (format_response ctime data nbytes) = [''response_length'', ''time_stamp''])"
proof -
  from assms have "length (format_response ctime data nbytes) < length (field_results ctime data)"
    unfolding malformed_def Let_def
    using too_short_partial unmapped_partial by blast
  with format_response_decoded_so_far [of ctime data nbytes]
    unmapped_command_keys [of data ctime nbytes]
  show ?thesis
    by blast
qed

theorem format_response_partial_on_malformed_witness:
  "malformed [13, 0, 0, 0, 1, 0, 0, 0, 200, 1, 1, 0, 0, 0, 0, 0, 0]
   \<and> format_response str [13, 0, 0, 0, 1, 0, 0, 0, 200, 1, 1, 0, 0, 0, 0, 0, 0] 9
       = decoded_so_far (field_results str [13, 0, 0, 0, 1, 0, 0, 0, 200, 1, 1, 0, 0, 0, 0, 0, 0])
   \<and> map fst (format_response str [13, 0, 0, 0, 1, 0, 0, 0, 200, 1, 1, 0, 0, 0, 0, 0, 0] 9)
       = [''response_length'', ''time_stamp'']"
proof -
  have m: "malformed [13, 0, 0, 0, 1, 0, 0, 0, 200, 1, 1, 0, 0, 0, 0, 0, 0]"
    by code_simp
  have u: "unmapped command_codes
             (byte_at (map uint [13, 0, 0, 0, 1, 0, 0, 0, 200, 1, 1, 0, 0, 0, 0, 0, 0 :: byte]) ''COMMAND_OFFSET'')"
    by code_simp
  have l: "8 < length [13, 0, 0, 0, 1, 0, 0, 0, 200, 1, 1, 0, 0, 0, 0, 0, 0 :: byte]"
    by simp
  from format_response_partial_on_malformed [OF m, of str 9] m u l show ?thesis
    by blast
qed

text \<open>
  Claim C3 as stated fails: on a 17-byte response whose command byte is 200, the
  \<^verbatim>\<open>KeyError\<close> raised inside the \<^verbatim>\<open>try\<close> block is swallowed and a dictionary with two
  fields is returned (\<open>str\<close> stands in for \<^verbatim>\<open>time.ctime\<close>).
\<close>

theorem format_response_swallows_unmapped_command:
  "format_response_try str [13, 0, 0, 0, 1, 0, 0, 0, 200, 1, 1, 0, 0, 0, 0, 0, 0]
     = ([(''response_length'', PyInt 13), (''time_stamp'', PyStr ''1'')], Some KeyError)
   \<and> format_response str [13, 0, 0, 0, 1, 0, 0, 0, 200, 1, 1, 0, 0, 0, 0, 0, 0] 9
     = [(''response_length'', PyInt 13), (''time_stamp'', PyStr ''1'')]"
  by code_simp

text \<open>
  Claim C6, as the code has it. For a response of at least 17 bytes whose codes are all
  mapped, so that the seven fixed fields decode, \<^verbatim>\<open>error_message\<close> is present exactly when
  the decoded response length exceeds 13 and the buffer has at least 18 bytes; it is then
  the one-character string \<^verbatim>\<open>data[17]\<close>. Otherwise the key is absent (a \<^verbatim>\<open>KeyError\<close> on
  lookup), not an empty string.
\<close>

theorem error_message_present_iff:
  assumes "17 \<le> length data" and "codes_mapped data"
  shows "\<exists>len. getitem (format_response ctime data nbytes) ''response_length'' = Inr (PyInt len)
           \<and> getitem (format_response ctime data nbytes) ''error_message''
               = (if 13 < len \<and> 18 \<le> length data
                  then Inr (PyStr [char_of (uint (data ! 17))]) else Inl KeyError)"
proof -
  from assms(1) obtain len where len: "decode (map uint data) ''LENGTH_OFFSET'' = Inr len"
    using decode_span_ok [of 4 "map uint data" 0] by (auto simp: decode_LENGTH)
  from assms(1) obtain ts where ts: "decode (map uint data) ''TIMESTAMP_OFFSET'' = Inr ts"
    using decode_span_ok [of 8 "map uint data" 4] by (auto simp: decode_TIMESTAMP)
  from assms(1) obtain tt where tt: "decode_test_time (map uint data) = Inr tt"
    using decode_test_time_ok [of "map uint data"] by auto
  from assms(2) obtain c s t r where codes:
    "lookup_code command_codes (byte_at (map uint data) ''COMMAND_OFFSET'') = Inr (PyStr c)"
    "lookup_code state_codes (byte_at (map uint data) ''SYSTEM_STATE_OFFSET'') = Inr (PyStr s)"
    "lookup_code test_states (byte_at (map uint data) ''TEST_STATE_OFFSET'') = Inr (PyStr t)"
    "lookup_code response_codes (decode (map uint data) ''RESULT_OFFSET'') = Inr (PyStr r)"
    unfolding codes_mapped_def Let_def by (blast dest: mapped_lookup)
  have "getitem (format_response ctime data nbytes) ''response_length'' = Inr (PyInt len)"
    by (simp add: format_response_decoded_so_far field_results_def Let_def len ts tt codes
        getitem_def)
  moreover have "getitem (format_response ctime data nbytes) ''error_message''
      = (if 13 < len \<and> 18 \<le> length data
         then Inr (PyStr [char_of (uint (data ! 17))]) else Inl KeyError)"
    by (simp add: format_response_decoded_so_far field_results_def Let_def len ts tt codes
        getitem_def)
  ultimately show ?thesis
    by blast
qed

theorem error_message_present_iff_witness:
  "17 \<le> length [14, 0, 0, 0, 1, 0, 0, 0, 0, 1, 1, 0, 0, 201, 220, 55, 0, 65 :: byte]
   \<and> codes_mapped [14, 0, 0, 0, 1, 0, 0, 0, 0, 1, 1, 0, 0, 201, 220, 55, 0, 65]
   \<and> getitem (format_response str [14, 0, 0, 0, 1, 0, 0, 0, 0, 1, 1, 0, 0, 201, 220, 55, 0, 65] 9)
        ''error_message'' = Inr (PyStr ''A'')"
proof -
  let ?data = "[14, 0, 0, 0, 1, 0, 0, 0, 0, 1, 1, 0, 0, 201, 220, 55, 0, 65 :: byte]"
  have l: "17 \<le> length ?data"
    by simp
  have m: "codes_mapped ?data"
    by code_simp
  have len: "getitem (format_response str ?data 9) ''response_length'' = Inr (PyInt 14)"
    by code_simp
  have c: "[char_of (uint (?data ! 17))] = ''A''"
    by code_simp
  from error_message_present_iff [OF l m, of str 9] len
  have "getitem (format_response str ?data 9) ''error_message''
          = Inr (PyStr [char_of (uint (?data ! 17))])"
    by auto
  with l m c show ?thesis
    by simp
qed

text \<open>
  Claim C6 as stated fails on a 17-byte response that announces a length of 14: all seven
  fixed fields decode and the response length exceeds 13, but \<^verbatim>\<open>data[17]\<close> raises an
  \<^verbatim>\<open>IndexError\<close> that is swallowed, and \<^verbatim>\<open>error_message\<close> is absent.
\<close>

theorem error_message_absent_at_17_bytes:
  "getitem (format_response str [14, 0, 0, 0, 1, 0, 0, 0, 0, 1, 1, 0, 0, 201, 220, 55, 0] 9)
     ''response_length'' = Inr (PyInt 14)
   \<and> map fst (format_response str [14, 0, 0, 0, 1, 0, 0, 0, 0, 1, 1, 0, 0, 201, 220, 55, 0] 9)
     = [''response_length'', ''time_stamp'', ''command_id'', ''pathway_state'', ''test_state'',
        ''response'', ''test_time_stamp'']
   \<and> getitem (format_response str [14, 0, 0, 0, 1, 0, 0, 0, 0, 1, 1, 0, 0, 201, 220, 55, 0] 9)
     ''error_message'' = Inl KeyError"
  by code_simp

section \<open>Properties of the session\<close>

text \<open>
  Claim C4, as the code has it. \<open>call\<close> issues the command again once for every response
  in a row that decodes to the empty dictionary, which is a response of fewer than four
  bytes: not at most once. \<open>call\<close> has no cap of its own; what bounds the re-issues is
  the recursion depth the interpreter has left. A run \<open>xs\<close> of such responses that fits
  into that depth is followed to its end: the command is sent \<open>length xs + 1\<close> times and
  the decoding of the next response, of four bytes or more, is returned. A longer run ends
  after \<open>depth\<close> re-issues with a \<^verbatim>\<open>RuntimeError\<close>.
\<close>

theorem call_reissues_for_each_empty_response:
  assumes "command_number command = Inr c" and "\<not> (c = 1 \<and> protocol = None)"
    and "\<forall>x \<in> set xs. length (received self x) < 4"
  shows "(length xs \<le> depth \<and> 4 \<le> length (received self y) \<longrightarrow>
            call ctime self depth command protocol False \<lparr>script = xs @ y # rest, trace = tr\<rparr> =
              (Inr (format_response ctime (received self y)
                      (length (format_command (clock y) c protocol))),
               \<lparr>script = rest,
                  trace = tr @ concat (map (exchange_events self c protocol) (xs @ [y]))\<rparr>))
       \<and> (depth < length xs \<longrightarrow>
            call ctime self depth command protocol False \<lparr>script = xs @ rest, trace = tr\<rparr> =
              (Inl RuntimeError,
               \<lparr>script = drop (Suc depth) xs @ rest,
                  trace = tr @ concat (map (exchange_events self c protocol)
                                          (take (Suc depth) xs))\<rparr>))
       \<and> sends (concat (map (exchange_events self c protocol) zs))
           = map (\<lambda>x. format_command (clock x) c protocol) zs"
proof (intro conjI impI)
  assume "length xs \<le> depth \<and> 4 \<le> length (received self y)"
  then show "call ctime self depth command protocol False \<lparr>script = xs @ y # rest, trace = tr\<rparr> =
              (Inr (format_response ctime (received self y)
                      (length (format_command (clock y) c protocol))),
               \<lparr>script = rest,
                  trace = tr @ concat (map (exchange_events self c protocol) (xs @ [y]))\<rparr>)"
    using call_reissues [OF assms] by blast
next
  assume "depth < length xs"
  then show "call ctime self depth command protocol False \<lparr>script = xs @ rest, trace = tr\<rparr> =
              (Inl RuntimeError,
               \<lparr>script = drop (Suc depth) xs @ rest,
                  trace = tr @ concat (map (exchange_events self c protocol)
                                          (take (Suc depth) xs))\<rparr>)"
    by (rule call_depth_exceeded [OF assms(2) assms(1) assms(3)])
next
  show "sends (concat (map (exchange_events self c protocol) zs))
           = map (\<lambda>x. format_command (clock x) c protocol) zs"
    by (rule sends_exchanges)
qed

theorem call_reissues_for_each_empty_response_witness:
  "sends (trace (snd (call str
      \<lparr>ip = ''10.0.0.2'', port_number = 20121, BUFFER_SIZE = 1024, verbose = False\<rparr> 900
      (Name ''STOP'') None False
      \<lparr>script = [\<lparr>clock = 11, reply = []\<rparr>, \<lparr>clock = 12, reply = [18, 0]\<rparr>,
                  \<lparr>clock = 13, reply = [18, 0, 0]\<rparr>,
                  \<lparr>clock = 14, reply = [13, 0, 0, 0, 1, 0, 0, 0, 5, 0, 0, 0, 0, 0, 0, 0, 0]\<rparr>],
         trace = []\<rparr>)))
   = [format_command 11 5 None, format_command 12 5 None, format_command 13 5 None,
      format_command 14 5 None]
   \<and> call str
      \<lparr>ip = ''10.0.0.2'', port_number = 20121, BUFFER_SIZE = 1024, verbose = False\<rparr> 1
      (Name ''STOP'') None False
      \<lparr>script = [\<lparr>clock = 11, reply = []\<rparr>, \<lparr>clock = 12, reply = [18, 0]\<rparr>,
                  \<lparr>clock = 13, reply = [18, 0, 0]\<rparr>,
                  \<lparr>clock = 14, reply = [13, 0, 0, 0, 1, 0, 0, 0, 5, 0, 0, 0, 0, 0, 0, 0, 0]\<rparr>],
         trace = []\<rparr>
   = (Inl RuntimeError,
      \<lparr>script = [\<lparr>clock = 13, reply = [18, 0, 0]\<rparr>,
                  \<lparr>clock = 14, reply = [13, 0, 0, 0, 1, 0, 0, 0, 5, 0, 0, 0, 0, 0, 0, 0, 0]\<rparr>],
         trace = [Connect, Send (format_command 11 5 None), Sleep After_send, Recv [],
                  Connect, Send (format_command 12 5 None), Sleep After_send, Recv [18, 0]]\<rparr>)"
proof -
  let ?self = "\<lparr>ip = ''10.0.0.2'', port_number = 20121, BUFFER_SIZE = 1024, verbose = False\<rparr>"
  let ?xs = "[\<lparr>clock = 11, reply = []\<rparr>, \<lparr>clock = 12, reply = [18, 0]\<rparr>,
              \<lparr>clock = 13, reply = [18, 0, 0 :: byte]\<rparr>]"
  let ?y = "\<lparr>clock = 14, reply = [13, 0, 0, 0, 1, 0, 0, 0, 5, 0, 0, 0, 0, 0, 0, 0, 0 :: byte]\<rparr>"
  have c: "command_number (Name ''STOP'') = Inr 5"
    by (simp add: command_number_def command_codes_def)
  have p: "\<not> ((5::int) = 1 \<and> (None :: int option) = None)"
    by simp
  have short: "\<forall>x \<in> set ?xs. length (received ?self x) < 4"
    by (simp add: received_def)
  have fits: "length ?xs \<le> 900 \<and> 4 \<le> length (received ?self ?y)"
    by (simp add: received_def)
  have over: "1 < length ?xs"
    by simp
  from call_reissues_for_each_empty_response [OF c p short,
      where depth = 900 and y = ?y and ctime = str and rest = "[]" and tr = "[]"] fits
  have a: "call str ?self 900 (Name ''STOP'') None False \<lparr>script = ?xs @ ?y # [], trace = []\<rparr> =
      (Inr (format_response str (received ?self ?y) (length (format_command (clock ?y) 5 None))),
       \<lparr>script = [],
          trace = [] @ concat (map (exchange_events ?self 5 None) (?xs @ [?y]))\<rparr>)"
    by blast
  from call_reissues_for_each_empty_response [OF c p short,
      where depth = 1 and ctime = str and rest = "[?y]" and tr = "[]"] over
  have b: "call str ?self 1 (Name ''STOP'') None False \<lparr>script = ?xs @ [?y], trace = []\<rparr> =
      (Inl RuntimeError,
       \<lparr>script = drop (Suc 1) ?xs @ [?y],
          trace = [] @ concat (map (exchange_events ?self 5 None) (take (Suc 1) ?xs))\<rparr>)"
    by blast
  from a have a': "sends (trace (snd (call str ?self 900 (Name ''STOP'') None False
                      \<lparr>script = ?xs @ ?y # [], trace = []\<rparr>)))
      = [format_command 11 5 None, format_command 12 5 None, format_command 13 5 None,
         format_command 14 5 None]"
    by (simp add: sends_def exchange_events_def)
  from b have b': "call str ?self 1 (Name ''STOP'') None False \<lparr>script = ?xs @ [?y], trace = []\<rparr>
      = (Inl RuntimeError,
         \<lparr>script = [\<lparr>clock = 13, reply = [18, 0, 0]\<rparr>, ?y],
            trace = [Connect, Send (format_command 11 5 None), Sleep After_send, Recv [],
                     Connect, Send (format_command 12 5 None), Sleep After_send, Recv [18, 0]]\<rparr>)"
    by (simp add: exchange_events_def received_def)
  from a' b' show ?thesis
    by simp
qed

text \<open>
  Claim C4 as stated fails: after two empty responses the command \<^verbatim>\<open>STATUS\<close> has been
  issued three times, that is, re-issued twice.
\<close>

theorem call_reissues_twice:
  "sends (trace (snd (call str
      \<lparr>ip = ''10.0.0.2'', port_number = 20121, BUFFER_SIZE = 1024, verbose = False\<rparr> 900
      (Name ''STATUS'') None False
      \<lparr>script = [\<lparr>clock = 5, reply = []\<rparr>, \<lparr>clock = 6, reply = []\<rparr>,
                  \<lparr>clock = 7, reply = [13, 0, 0, 0, 1, 0, 0, 0, 0, 0, 0, 0, 0, 0, 0, 0, 0]\<rparr>],
         trace = []\<rparr>)))
   = [[5, 0, 0, 0, 5, 0, 0, 0, 0], [5, 0, 0, 0, 6, 0, 0, 0, 0], [5, 0, 0, 0, 7, 0, 0, 0, 0]]"
  by code_simp

text \<open>
  Claim C8, as the code has it. \<open>call\<close> with \<^verbatim>\<open>TEST_PROGRAM\<close> (by name or by number) and no
  protocol number creates the connection first. When that succeeds it raises
  \<^verbatim>\<open>ValueError\<close> with the connection opened and nothing sent or received; when it fails
  the socket error is what comes out.
\<close>

theorem call_without_protocol_connects_first:
  "call ctime self depth (Name ''TEST_PROGRAM'') None False w =
     (case script w of
        [] \<Rightarrow> (Inl SocketError, emit [Connect_failed] w)
      | x # rest \<Rightarrow> (Inl ValueError, emit [Connect] (w\<lparr>script := rest\<rparr>)))
   \<and> call ctime self depth (Code 1) None False w =
     (case script w of
        [] \<Rightarrow> (Inl SocketError, emit [Connect_failed] w)
      | x # rest \<Rightarrow> (Inl ValueError, emit [Connect] (w\<lparr>script := rest\<rparr>)))"
  using call_missing_protocol [OF command_number_TEST_PROGRAM]
    call_missing_protocol [OF command_number_Code] by blast

text \<open>
  Claim C8 as stated fails: the trace of the call that raises \<^verbatim>\<open>ValueError\<close> holds a
  connection.
\<close>

theorem call_without_protocol_opens_connection:
  "call str \<lparr>ip = ''10.0.0.2'', port_number = 20121, BUFFER_SIZE = 1024, verbose = False\<rparr>
     900 (Name ''TEST_PROGRAM'') None False
     \<lparr>script = [\<lparr>clock = 5, reply = [13, 0, 0, 0, 1, 0, 0, 0, 1, 0, 0, 0, 0, 0, 0, 0, 0]\<rparr>],
        trace = []\<rparr>
   = (Inl ValueError, \<lparr>script = [], trace = [Connect]\<rparr>)"
  by code_simp

text \<open>
  Claim C10. With \<^verbatim>\<open>TEST_PROGRAM\<close> and the protocol number 0 the guard of \<open>call\<close> does not
  raise \<^verbatim>\<open>ValueError\<close>, and the message sent on the first connection is
  \<open>format_command\<close> of command 1 and protocol 0. That message has no payload: it is the
  message of command 1 without a protocol number, 9 bytes long, with a length prefix of 5.
\<close>

theorem protocol_zero_sends_no_payload:
  "fst (call ctime self depth (Name ''TEST_PROGRAM'') (Some 0) False w) \<noteq> Inl ValueError
   \<and> (\<exists>evs. trace (snd (call ctime self depth (Name ''TEST_PROGRAM'') (Some 0) False
                          \<lparr>script = x # rest, trace = tr\<rparr>))
              = tr @ [Connect, Send (format_command (clock x) 1 (Some 0))] @ evs)
   \<and> format_command now 1 (Some 0) = format_command now 1 None
   \<and> length (format_command now 1 (Some 0)) = 9
   \<and> decode (map uint (format_command now 1 (Some 0))) ''LENGTH_OFFSET'' = Inr 5"
proof -
  have guard: "\<not> ((1::int) = 1 \<and> Some (0::int) = None)"
    by simp
  have "fst (call ctime self depth (Name ''TEST_PROGRAM'') (Some 0) False
              \<lparr>script = script w, trace = trace w\<rparr>) \<noteq> Inl ValueError"
    by (rule call_no_ValueError_script [OF guard command_number_TEST_PROGRAM])
  then have a: "fst (call ctime self depth (Name ''TEST_PROGRAM'') (Some 0) False w) \<noteq> Inl ValueError"
    by (cases w) simp
  obtain evs where "trace (snd (call ctime self depth (Name ''TEST_PROGRAM'') (Some 0) False
                          \<lparr>script = x # rest, trace = tr\<rparr>))
              = tr @ exchange_events self 1 (Some 0) x @ evs"
    using call_first_exchange [OF command_number_TEST_PROGRAM guard] by blast
  then have b: "\<exists>evs. trace (snd (call ctime self depth (Name ''TEST_PROGRAM'') (Some 0) False
                          \<lparr>script = x # rest, trace = tr\<rparr>))
              = tr @ [Connect, Send (format_command (clock x) 1 (Some 0))] @ evs"
    by (simp add: exchange_events_def)
  have c: "format_command now 1 (Some 0) = format_command now 1 None"
    by (simp add: format_command_le32 truthy_def)
  have d: "length (format_command now 1 (Some 0)) = 9"
    by (simp add: format_command_le32 truthy_def length_le32)
  have "slice (map uint (format_command now 1 (Some 0))) 0 4 = le32 5"
    by (simp add: format_command_le32 truthy_def slice_def length_le32 map_uint_le32)
  then have "decode_span (map uint (format_command now 1 (Some 0))) 0 4 = Inr (take_bit 32 5)"
    by (rule decode_span_le32) simp
  then have e: "decode (map uint (format_command now 1 (Some 0))) ''LENGTH_OFFSET'' = Inr 5"
    by (simp add: decode_LENGTH)
  from a b c d e show ?thesis
    by blast
qed

text \<open>
  Claim C5. The code breaks the claim for the empty string as desired value. The loop
  variable \<^verbatim>\<open>val\<close> starts as \<^verbatim>\<open>''\<close> and is compared with the desired value before the
  first poll. With \<^verbatim>\<open>poll_max = 3\<close> and responses whose \<^verbatim>\<open>test_state\<close> is \<^verbatim>\<open>IDLE\<close>,
  \<^verbatim>\<open>READY\<close> and \<^verbatim>\<open>READY\<close>, never the empty string, the loop body does not run: no
  \<^verbatim>\<open>STATUS\<close> call is made, the script is left untouched, and the function sleeps for
  the server lag and returns \<^verbatim>\<open>True\<close>, where the claim has \<^verbatim>\<open>False\<close> after three calls
  and no such sleep.
\<close>

theorem poll_for_change_empty_desired_value:
  "poll_for_change str
     \<lparr>ip = ''10.0.0.2'', port_number = 20121, BUFFER_SIZE = 1024, verbose = False\<rparr> 900
     ''test_state'' (PyStr '''') 3
     \<lparr>script = [\<lparr>clock = 21, reply = [13, 0, 0, 0, 1, 0, 0, 0, 0, 1, 0, 0, 0, 0, 0, 0, 0]\<rparr>,
                 \<lparr>clock = 22, reply = [13, 0, 0, 0, 2, 0, 0, 0, 0, 1, 3, 0, 0, 0, 0, 0, 0]\<rparr>,
                 \<lparr>clock = 23, reply = [13, 0, 0, 0, 3, 0, 0, 0, 0, 1, 3, 0, 0, 0, 0, 0, 0]\<rparr>],
        trace = []\<rparr>
   = (Inr True,
      \<lparr>script = [\<lparr>clock = 21, reply = [13, 0, 0, 0, 1, 0, 0, 0, 0, 1, 0, 0, 0, 0, 0, 0, 0]\<rparr>,
                 \<lparr>clock = 22, reply = [13, 0, 0, 0, 2, 0, 0, 0, 0, 1, 3, 0, 0, 0, 0, 0, 0]\<rparr>,
                 \<lparr>clock = 23, reply = [13, 0, 0, 0, 3, 0, 0, 0, 0, 1, 3, 0, 0, 0, 0, 0, 0]\<rparr>],
         trace = [Sleep Server_lag]\<rparr>)
   \<and> map (\<lambda>data. getitem (format_response str data 9) ''test_state'')
       [[13, 0, 0, 0, 1, 0, 0, 0, 0, 1, 0, 0, 0, 0, 0, 0, 0],
        [13, 0, 0, 0, 2, 0, 0, 0, 0, 1, 3, 0, 0, 0, 0, 0, 0],
        [13, 0, 0, 0, 3, 0, 0, 0, 0, 1, 3, 0, 0, 0, 0, 0, 0]]
     = [Inr (PyStr ''IDLE''), Inr (PyStr ''READY''), Inr (PyStr ''READY'')]"
  by code_simp

text \<open>
  For every other desired value the loop does what is expected of it. With a positive
  \<^verbatim>\<open>poll_max\<close> and a device whose first \<^verbatim>\<open>poll_max\<close> responses all carry the watched field
  with a value different from the desired one, \<open>poll_for_change\<close> returns \<^verbatim>\<open>False\<close> after
  exactly \<^verbatim>\<open>poll_max\<close> rounds, each sending one \<^verbatim>\<open>STATUS\<close> command, and never sleeps for
  the server lag. With \<^verbatim>\<open>poll_max\<close> at most 0 it never returns \<^verbatim>\<open>False\<close>, whatever the
  desired value.
\<close>

lemma poll_for_change_exhausted:
  "(desired \<noteq> PyStr '''' \<and> 0 < poll_max \<and> int (length xs) = poll_max
      \<and> (\<forall>x \<in> set xs. \<exists>v. getitem (format_response ctime (received self x) 9) to_watch = Inr v
                          \<and> v \<noteq> desired)
     \<longrightarrow> poll_for_change ctime self depth to_watch desired poll_max \<lparr>script = xs @ rest, trace = tr\<rparr>
           = (Inr False, \<lparr>script = rest, trace = tr @ concat (map (poll_events self) xs)\<rparr>)
         \<and> sends (concat (map (poll_events self) xs))
           = map (\<lambda>x. format_command (clock x) 0 None) xs
         \<and> Sleep Server_lag \<notin> set (concat (map (poll_events self) xs)))
   \<and> (poll_max \<le> 0
     \<longrightarrow> fst (poll_for_change ctime self depth to_watch desired poll_max w) \<noteq> Inr False)"
proof (intro conjI impI)
  assume h: "desired \<noteq> PyStr '''' \<and> 0 < poll_max \<and> int (length xs) = poll_max
      \<and> (\<forall>x \<in> set xs. \<exists>v. getitem (format_response ctime (received self x) 9) to_watch = Inr v
                          \<and> v \<noteq> desired)"
  then have "xs \<noteq> []" and "PyStr '''' \<noteq> desired" and "int (length xs) = poll_max - 1 + 1"
    by auto
  with h show "poll_for_change ctime self depth to_watch desired poll_max \<lparr>script = xs @ rest, trace = tr\<rparr>
           = (Inr False, \<lparr>script = rest, trace = tr @ concat (map (poll_events self) xs)\<rparr>)"
    unfolding poll_for_change_def by (intro poll_loop_exhausts) simp_all
  show "sends (concat (map (poll_events self) xs)) = map (\<lambda>x. format_command (clock x) 0 None) xs"
    by (rule sends_polls)
  show "Sleep Server_lag \<notin> set (concat (map (poll_events self) xs))"
    by (rule no_lag_in_polls)
next
  assume "poll_max \<le> 0"
  then show "fst (poll_for_change ctime self depth to_watch desired poll_max w) \<noteq> Inr False"
    unfolding poll_for_change_def by (rule poll_loop_never_False)
qed

lemma poll_for_change_exhausted_example:
  "poll_for_change str
     \<lparr>ip = ''10.0.0.2'', port_number = 20121, BUFFER_SIZE = 1024, verbose = False\<rparr> 900
     ''test_state'' (PyStr ''RUNNING'') 3
     \<lparr>script = [\<lparr>clock = 21, reply = [13, 0, 0, 0, 1, 0, 0, 0, 0, 1, 0, 0, 0, 0, 0, 0, 0]\<rparr>,
                 \<lparr>clock = 22, reply = [13, 0, 0, 0, 2, 0, 0, 0, 0, 1, 3, 0, 0, 0, 0, 0, 0]\<rparr>,
                 \<lparr>clock = 23, reply = [13, 0, 0, 0, 3, 0, 0, 0, 0, 1, 3, 0, 0, 0, 0, 0, 0]\<rparr>,
                 \<lparr>clock = 24, reply = [13, 0, 0, 0, 4, 0, 0, 0, 0, 2, 1, 0, 0, 0, 0, 0, 0]\<rparr>],
        trace = []\<rparr>
   = (Inr False,
      \<lparr>script = [\<lparr>clock = 24, reply = [13, 0, 0, 0, 4, 0, 0, 0, 0, 2, 1, 0, 0, 0, 0, 0, 0]\<rparr>],
         trace = [Connect, Send [5, 0, 0, 0, 21, 0, 0, 0, 0], Sleep After_send,
                  Recv [13, 0, 0, 0, 1, 0, 0, 0, 0, 1, 0, 0, 0, 0, 0, 0, 0], Sleep Poll_interval,
                  Connect, Send [5, 0, 0, 0, 22, 0, 0, 0, 0], Sleep After_send,
                  Recv [13, 0, 0, 0, 2, 0, 0, 0, 0, 1, 3, 0, 0, 0, 0, 0, 0], Sleep Poll_interval,
                  Connect, Send [5, 0, 0, 0, 23, 0, 0, 0, 0], Sleep After_send,
                  Recv [13, 0, 0, 0, 3, 0, 0, 0, 0, 1, 3, 0, 0, 0, 0, 0, 0], Sleep Poll_interval]\<rparr>)
   \<and> fst (poll_for_change str
       \<lparr>ip = ''10.0.0.2'', port_number = 20121, BUFFER_SIZE = 1024, verbose = False\<rparr> 900
       ''test_state'' (PyStr ''RUNNING'') (- 1)
       \<lparr>script = [\<lparr>clock = 21, reply = [13, 0, 0, 0, 1, 0, 0, 0, 0, 1, 0, 0, 0, 0, 0, 0, 0]\<rparr>],
          trace = []\<rparr>) \<noteq> Inr False"
proof -
  let ?self = "\<lparr>ip = ''10.0.0.2'', port_number = 20121, BUFFER_SIZE = 1024, verbose = False\<rparr>"
  let ?x1 = "\<lparr>clock = 21, reply = [13, 0, 0, 0, 1, 0, 0, 0, 0, 1, 0, 0, 0, 0, 0, 0, 0 :: byte]\<rparr>"
  let ?x2 = "\<lparr>clock = 22, reply = [13, 0, 0, 0, 2, 0, 0, 0, 0, 1, 3, 0, 0, 0, 0, 0, 0 :: byte]\<rparr>"
  let ?x3 = "\<lparr>clock = 23, reply = [13, 0, 0, 0, 3, 0, 0, 0, 0, 1, 3, 0, 0, 0, 0, 0, 0 :: byte]\<rparr>"
  let ?x4 = "\<lparr>clock = 24, reply = [13, 0, 0, 0, 4, 0, 0, 0, 0, 2, 1, 0, 0, 0, 0, 0, 0 :: byte]\<rparr>"
  have f1: "getitem (format_response str (received ?self ?x1) 9) ''test_state'' = Inr (PyStr ''IDLE'')"
    by code_simp
  have f2: "getitem (format_response str (received ?self ?x2) 9) ''test_state'' = Inr (PyStr ''READY'')"
    by code_simp
  have f3: "getitem (format_response str (received ?self ?x3) 9) ''test_state'' = Inr (PyStr ''READY'')"
    by code_simp
  have hyp: "PyStr ''RUNNING'' \<noteq> PyStr '''' \<and> (0::int) < 3 \<and> int (length [?x1, ?x2, ?x3]) = 3
      \<and> (\<forall>x \<in> set [?x1, ?x2, ?x3].
            \<exists>v. getitem (format_response str (received ?self x) 9) ''test_state'' = Inr v
                 \<and> v \<noteq> PyStr ''RUNNING'')"
    using f1 f2 f3 by simp
  have ev: "concat (map (poll_events ?self) [?x1, ?x2, ?x3]) =
      [Connect, Send [5, 0, 0, 0, 21, 0, 0, 0, 0], Sleep After_send,
       Recv [13, 0, 0, 0, 1, 0, 0, 0, 0, 1, 0, 0, 0, 0, 0, 0, 0], Sleep Poll_interval,
       Connect, Send [5, 0, 0, 0, 22, 0, 0, 0, 0], Sleep After_send,
       Recv [13, 0, 0, 0, 2, 0, 0, 0, 0, 1, 3, 0, 0, 0, 0, 0, 0], Sleep Poll_interval,
       Connect, Send [5, 0, 0, 0, 23, 0, 0, 0, 0], Sleep After_send,
       Recv [13, 0, 0, 0, 3, 0, 0, 0, 0, 1, 3, 0, 0, 0, 0, 0, 0], Sleep Poll_interval]"
    by code_simp
  from poll_for_change_exhausted [where desired = "PyStr ''RUNNING''" and poll_max = 3
      and xs = "[?x1, ?x2, ?x3]" and ctime = str and self = ?self and depth = 900
      and to_watch = "''test_state''" and rest = "[?x4]" and tr = "[]"] hyp
  have a: "poll_for_change str ?self 900 ''test_state'' (PyStr ''RUNNING'') 3
             \<lparr>script = [?x1, ?x2, ?x3] @ [?x4], trace = []\<rparr>
           = (Inr False, \<lparr>script = [?x4],
                trace = [] @ concat (map (poll_events ?self) [?x1, ?x2, ?x3])\<rparr>)"
    by blast
  from poll_for_change_exhausted [where desired = "PyStr ''RUNNING''" and poll_max = "- 1"
      and xs = "[]" and ctime = str and self = ?self and depth = 900
      and to_watch = "''test_state''" and rest = "[]" and tr = "[]"
      and w = "\<lparr>script = [?x1], trace = []\<rparr>"]
  have b: "fst (poll_for_change str ?self 900 ''test_state'' (PyStr ''RUNNING'') (- 1)
                  \<lparr>script = [?x1], trace = []\<rparr>) \<noteq> Inr False"
    by simp
  from a [unfolded ev] b show ?thesis
    by simp
qed

end
